theory Spec2Isabelle
  imports Main
begin

section \<open>JavaScript strings and arrays\<close>

text \<open>
  A JavaScript string is a sequence of UTF-16 code units; it is modelled as the list of
  its code units (natural numbers below 65536).  \<open>js\<close> turns an ASCII literal into
  that form, so \<open>js ''all''\<close> is the string \<^verbatim>\<open>"all"\<close>.
\<close>

type_synonym jsstring = "nat list"

definition js :: "string \<Rightarrow> jsstring" where
  "js s = map of_char s"

text \<open>\<^verbatim>\<open>s.startsWith(p)\<close>, \<^verbatim>\<open>s.slice(n)\<close> and \<^verbatim>\<open>s.includes(sub)\<close>.\<close>

definition js_startsWith :: "jsstring \<Rightarrow> jsstring \<Rightarrow> bool" where
  "js_startsWith s p = (take (length p) s = p)"

definition js_slice :: "jsstring \<Rightarrow> nat \<Rightarrow> jsstring" where
  "js_slice s n = drop n s"

fun js_includes :: "jsstring \<Rightarrow> jsstring \<Rightarrow> bool" where
  "js_includes [] sub = (sub = [])"
| "js_includes (c # cs) sub = (js_startsWith (c # cs) sub \<or> js_includes cs sub)"

text \<open>
  \<^verbatim>\<open>s.split(sep)\<close>: the input is scanned from the left, the segment read so far is
  closed at every occurrence of the separator and the scan goes on behind it.  With the
  empty separator the string falls into its code units.
\<close>

fun split_from :: "jsstring \<Rightarrow> jsstring \<Rightarrow> jsstring \<Rightarrow> jsstring list" where
  "split_from sep cur [] = [cur]"
| "split_from sep cur (c # cs) =
     (if js_startsWith (c # cs) sep
      then cur # split_from sep [] (drop (length sep - 1) cs)
      else split_from sep (cur @ [c]) cs)"

definition js_split :: "jsstring \<Rightarrow> jsstring \<Rightarrow> jsstring list" where
  "js_split s sep = (if sep = [] then map (\<lambda>c. [c]) s else split_from sep [] s)"

text \<open>\<^verbatim>\<open>parts.join(sep)\<close>.\<close>

fun js_join :: "jsstring list \<Rightarrow> jsstring \<Rightarrow> jsstring" where
  "js_join [] sep = []"
| "js_join [x] sep = x"
| "js_join (x # y # ys) sep = x @ sep @ js_join (y # ys) sep"

text \<open>
  \<^verbatim>\<open>xs[k]\<close> for a number \<open>k\<close>: \<^verbatim>\<open>undefined\<close> (here \<open>None\<close>) outside the array.
  \<^verbatim>\<open>xs.indexOf(x)\<close> is the first position of \<open>x\<close>, or \<open>-1\<close>.
\<close>

definition js_at :: "'a list \<Rightarrow> int \<Rightarrow> 'a option" where
  "js_at xs k = (if 0 \<le> k \<and> k < int (length xs) then Some (xs ! nat k) else None)"

fun js_indexOf :: "'a list \<Rightarrow> 'a \<Rightarrow> int" where
  "js_indexOf [] x = - 1"
| "js_indexOf (y # ys) x =
     (if y = x then 0 else (let r = js_indexOf ys x in if r = - 1 then - 1 else r + 1))"

section \<open>Protocol A: the ContentReference decoder\<close>

text \<open>
  \<^verbatim>\<open>handleInitiate\<close> (lambda/src/handlers/initiate.ts) starts by reading the
  \<^verbatim>\<open>contentId\<close>: the current form \<^verbatim>\<open>content::type::entityId\<close> when the text holds
  \<^verbatim>\<open>::\<close>, else the fixed legacy value \<^verbatim>\<open>content-all\<close>, else the legacy form
  \<^verbatim>\<open>content-type-entityId\<close>.  \<^verbatim>\<open>segments[1] ?? ""\<close> is \<open>nth_or segments 1 []\<close>.
\<close>

definition nth_or :: "'a list \<Rightarrow> nat \<Rightarrow> 'a \<Rightarrow> 'a" where
  "nth_or xs i d = (if i < length xs then xs ! i else d)"

definition parseContentId :: "jsstring \<Rightarrow> jsstring \<times> jsstring" where
  "parseContentId contentId =
     (if js_includes contentId (js ''::'') then
        (let segments = js_split contentId (js ''::'')
         in (nth_or segments 1 [], js_join (drop 2 segments) (js ''::'')))
      else if contentId = js ''content-all'' then (js ''all'', [])
      else
        (let parts = js_split contentId (js ''-'')
         in (nth_or parts 1 [], js_join (drop 2 parts) (js ''-''))))"

text \<open>
  The two ways a reference is written.  \<^verbatim>\<open>handleGetPlayableContent\<close> writes the current
  one, \<^verbatim>\<open>`content::${entityType.toLowerCase()}::${entityId}`\<close> for the entity types
  TRACK, ARTIST and PLAYLIST and \<^verbatim>\<open>"content::all::"\<close> for everything; older clients
  hold the hyphen form.
\<close>

definition currentFormat :: "jsstring \<Rightarrow> jsstring \<Rightarrow> jsstring" where
  "currentFormat kind entityId = js ''content::'' @ kind @ js ''::'' @ entityId"

definition legacyFormat :: "jsstring \<Rightarrow> jsstring \<Rightarrow> jsstring" where
  "legacyFormat kind entityId = js ''content-'' @ kind @ js ''-'' @ entityId"

definition contentKinds :: "jsstring list" where
  "contentKinds = [js ''all'', js ''track'', js ''artist'', js ''playlist'']"

section \<open>Storage\<close>

text \<open>
  \<^verbatim>\<open>Track\<close> (models/track.ts, as \<^verbatim>\<open>rowToTrack\<close> of utils/db.ts fills it) and
  \<^verbatim>\<open>Playlist\<close> (models/playlist.ts).  The fields carry a prefix, since two records of one
  theory cannot share a field name: \<open>t_id\<close> is \<^verbatim>\<open>track.id\<close>, \<open>p_id\<close> is
  \<^verbatim>\<open>playlist.id\<close>.
\<close>

record Track =
  t_id :: jsstring
  t_title :: jsstring
  t_artist :: jsstring
  t_artistId :: jsstring
  t_album :: jsstring
  t_duration :: int
  t_addedAt :: jsstring

record Playlist =
  p_id :: jsstring
  p_name :: jsstring
  trackIds :: "jsstring list"
  createdAt :: jsstring
  updatedAt :: jsstring

text \<open>
  The SQL engine is outside the embedding.  A database is held as its tables, the rows
  in the order the queries of utils/db.ts ask for: \<open>tracks_rows\<close> is table
  \<^verbatim>\<open>tracks\<close> read \<^verbatim>\<open>ORDER BY added_at DESC\<close> (newest first), \<open>playlists_rows\<close> is
  table \<^verbatim>\<open>playlists\<close> read \<^verbatim>\<open>ORDER BY created_at DESC\<close>, and each playlist row holds
  its \<^verbatim>\<open>playlist_tracks\<close> entries read \<^verbatim>\<open>ORDER BY position\<close>.  What the three
  \<^verbatim>\<open>LIKE\<close> conditions of the search queries accept is a parameter of the database.
\<close>

record PlaylistRow =
  row_id :: jsstring
  row_name :: jsstring
  row_created_at :: jsstring
  row_updated_at :: jsstring
  row_track_ids :: "jsstring list"

record TursoDb =
  tracks_rows :: "Track list"
  playlists_rows :: "PlaylistRow list"
  title_like :: "jsstring \<Rightarrow> Track \<Rightarrow> bool"
  artist_like :: "jsstring \<Rightarrow> Track \<Rightarrow> bool"
  name_like :: "jsstring \<Rightarrow> PlaylistRow \<Rightarrow> bool"

text \<open>
  \<^verbatim>\<open>rowToPlaylist\<close>: the column \<^verbatim>\<open>track_ids\<close> is \<^verbatim>\<open>GROUP_CONCAT(track_id, ',')\<close>,
  which is NULL for a playlist without entries; a non-empty text is split at the commas.
\<close>

definition group_concat :: "jsstring list \<Rightarrow> jsstring option" where
  "group_concat xs = (if xs = [] then None else Some (js_join xs (js '','')))"

definition rowToPlaylist :: "PlaylistRow \<Rightarrow> Playlist" where
  "rowToPlaylist r =
     \<lparr>p_id = row_id r, p_name = row_name r,
      trackIds =
        (case group_concat (row_track_ids r) of
           None \<Rightarrow> []
         | Some rawTrackIds \<Rightarrow> if rawTrackIds \<noteq> [] then js_split rawTrackIds (js '','') else []),
      createdAt = row_created_at r, updatedAt = row_updated_at r\<rparr>"

definition getTracks :: "TursoDb \<Rightarrow> Track list" where
  "getTracks db = tracks_rows db"

definition getTrackIds :: "TursoDb \<Rightarrow> jsstring list" where
  "getTrackIds db = map t_id (tracks_rows db)"

definition getTracksByArtistId :: "TursoDb \<Rightarrow> jsstring \<Rightarrow> Track list" where
  "getTracksByArtistId db artistId = filter (\<lambda>t. t_artistId t = artistId) (tracks_rows db)"

definition getTrack :: "TursoDb \<Rightarrow> jsstring \<Rightarrow> Track option" where
  "getTrack db i = find (\<lambda>t. t_id t = i) (tracks_rows db)"

definition getPlaylist :: "TursoDb \<Rightarrow> jsstring \<Rightarrow> Playlist option" where
  "getPlaylist db i = map_option rowToPlaylist (find (\<lambda>r. row_id r = i) (playlists_rows db))"

text \<open>
  \<^verbatim>\<open>getPlaylistTracks\<close>: \<^verbatim>\<open>tracks JOIN playlist_tracks ON t.id = pt.track_id WHERE
  pt.playlist_id = ? ORDER BY pt.position\<close>.
\<close>

definition getPlaylistTracks :: "TursoDb \<Rightarrow> jsstring \<Rightarrow> Track list" where
  "getPlaylistTracks db playlistId =
     concat (map (\<lambda>r. concat (map (\<lambda>e. filter (\<lambda>t. t_id t = e) (tracks_rows db))
                                 (row_track_ids r)))
                 (filter (\<lambda>r. row_id r = playlistId) (playlists_rows db)))"

definition searchTracksByTitle :: "TursoDb \<Rightarrow> jsstring \<Rightarrow> Track list" where
  "searchTracksByTitle db query = filter (title_like db query) (tracks_rows db)"

definition searchTracksByArtist :: "TursoDb \<Rightarrow> jsstring \<Rightarrow> Track list" where
  "searchTracksByArtist db query = filter (artist_like db query) (tracks_rows db)"

definition searchPlaylistsByName :: "TursoDb \<Rightarrow> jsstring \<Rightarrow> Playlist list" where
  "searchPlaylistsByName db query =
     map rowToPlaylist (filter (name_like db query) (playlists_rows db))"

section \<open>The adjacency handlers of the server (handlers/resolve-handler.ts)\<close>

text \<open>
  \<^verbatim>\<open>jsonResponse(data, status)\<close> is the pair of the status and the data; the JSON text on
  the wire is not modelled.  \<^verbatim>\<open>NextPrevResult\<close> and \<^verbatim>\<open>ResolveResult\<close> are the
  interfaces of clients/partykit-client.ts, an absent field being \<open>None\<close>.
\<close>

record 'a Response =
  status :: nat
  body :: 'a

definition jsonResponse :: "'a \<Rightarrow> nat \<Rightarrow> 'a Response" where
  "jsonResponse data st = \<lparr>status = st, body = data\<rparr>"

record NextPrevResult =
  np_hasNext :: "bool option"
  np_hasPrevious :: "bool option"
  np_hasFurtherNext :: "bool option"
  np_track :: "Track option"

definition np_none :: NextPrevResult where
  "np_none = \<lparr>np_hasNext = None, np_hasPrevious = None, np_hasFurtherNext = None,
              np_track = None\<rparr>"

record ResolveResult =
  r_found :: bool
  r_track :: "Track option"
  r_tracks :: "Track list option"
  r_playlist :: "Playlist option"
  r_totalCount :: "int option"
  r_error :: "jsstring option"

definition r_none :: ResolveResult where
  "r_none = \<lparr>r_found = False, r_track = None, r_tracks = None, r_playlist = None,
             r_totalCount = None, r_error = None\<rparr>"

text \<open>
  The list both handlers search: the playlist's \<^verbatim>\<open>trackIds\<close> when a (non-empty)
  \<^verbatim>\<open>playlistId\<close> is given, \<open>None\<close> standing for the 404 of an unknown playlist, and
  \<^verbatim>\<open>db.getTrackIds()\<close> otherwise.
\<close>

definition requestTrackList :: "TursoDb \<Rightarrow> jsstring option \<Rightarrow> jsstring list option" where
  "requestTrackList db playlistId =
     (case playlistId of
        None \<Rightarrow> Some (getTrackIds db)
      | Some pid \<Rightarrow>
          if pid = [] then Some (getTrackIds db)
          else (case getPlaylist db pid of None \<Rightarrow> None | Some playlist \<Rightarrow> Some (trackIds playlist)))"

definition handleGetNextTrack ::
  "TursoDb \<Rightarrow> jsstring \<Rightarrow> jsstring option \<Rightarrow> NextPrevResult Response" where
  "handleGetNextTrack db currentTrackId playlistId =
     (case requestTrackList db playlistId of
        None \<Rightarrow> jsonResponse (np_none\<lparr>np_hasNext := Some False\<rparr>) 404
      | Some trackList \<Rightarrow>
          (let currentIndex = js_indexOf trackList currentTrackId in
           if currentIndex = - 1 \<or> currentIndex \<ge> int (length trackList) - 1
           then jsonResponse (np_none\<lparr>np_hasNext := Some False\<rparr>) 200
           else
             (case js_at trackList (currentIndex + 1) of
                None \<Rightarrow> jsonResponse (np_none\<lparr>np_hasNext := Some False\<rparr>) 200
              | Some nextTrackId \<Rightarrow>
                  if nextTrackId = [] then jsonResponse (np_none\<lparr>np_hasNext := Some False\<rparr>) 200
                  else
                    (case getTrack db nextTrackId of
                       None \<Rightarrow> jsonResponse (np_none\<lparr>np_hasNext := Some False\<rparr>) 200
                     | Some nextTrack \<Rightarrow>
                         (let hasFurtherNext = (currentIndex + 1 < int (length trackList) - 1)
                          in jsonResponse
                               (np_none\<lparr>np_hasNext := Some True, np_track := Some nextTrack,
                                         np_hasFurtherNext := Some hasFurtherNext\<rparr>) 200)))))"

definition handleGetPreviousTrack ::
  "TursoDb \<Rightarrow> jsstring \<Rightarrow> jsstring option \<Rightarrow> NextPrevResult Response" where
  "handleGetPreviousTrack db currentTrackId playlistId =
     (case requestTrackList db playlistId of
        None \<Rightarrow> jsonResponse (np_none\<lparr>np_hasPrevious := Some False\<rparr>) 404
      | Some trackList \<Rightarrow>
          (let currentIndex = js_indexOf trackList currentTrackId in
           if currentIndex \<le> 0
           then jsonResponse (np_none\<lparr>np_hasPrevious := Some False\<rparr>) 200
           else
             (case js_at trackList (currentIndex - 1) of
                None \<Rightarrow> jsonResponse (np_none\<lparr>np_hasPrevious := Some False\<rparr>) 200
              | Some prevTrackId \<Rightarrow>
                  if prevTrackId = [] then jsonResponse (np_none\<lparr>np_hasPrevious := Some False\<rparr>) 200
                  else
                    (case getTrack db prevTrackId of
                       None \<Rightarrow> jsonResponse (np_none\<lparr>np_hasPrevious := Some False\<rparr>) 200
                     | Some prevTrack \<Rightarrow>
                         (let hasNextFromHere = (currentIndex - 1 < int (length trackList) - 1)
                          in jsonResponse
                               (np_none\<lparr>np_hasPrevious := Some True, np_track := Some prevTrack,
                                         np_hasNext := Some hasNextFromHere\<rparr>) 200)))))"


section \<open>The token codec of Protocol B (utils/alexa-response.ts)\<close>

subsection \<open>\<^verbatim>\<open>btoa\<close> and \<^verbatim>\<open>atob\<close>\<close>

text \<open>
  \<^verbatim>\<open>btoa\<close> raises InvalidCharacterError (\<open>None\<close>) when a code unit is above 255 and
  writes the bytes in base64 with \<^verbatim>\<open>=\<close> padding otherwise.  \<open>sextets\<close> cuts the bytes
  into 6-bit values, three bytes giving four of them.
\<close>

definition b64_char :: "nat \<Rightarrow> nat" where
  "b64_char n =
     (if n < 26 then 65 + n else if n < 52 then 71 + n else if n < 62 then n - 4
      else if n = 62 then 43 else 47)"

definition b64_val :: "nat \<Rightarrow> nat option" where
  "b64_val c =
     (if 65 \<le> c \<and> c \<le> 90 then Some (c - 65)
      else if 97 \<le> c \<and> c \<le> 122 then Some (c - 71)
      else if 48 \<le> c \<and> c \<le> 57 then Some (c + 4)
      else if c = 43 then Some 62
      else if c = 47 then Some 63
      else None)"

fun sextets :: "nat list \<Rightarrow> nat list" where
  "sextets [] = []"
| "sextets [a] = [a div 4, (a mod 4) * 16]"
| "sextets [a, b] = [a div 4, (a mod 4) * 16 + b div 16, (b mod 16) * 4]"
| "sextets (a # b # c # rest) =
     [a div 4, (a mod 4) * 16 + b div 16, (b mod 16) * 4 + c div 64, c mod 64] @ sextets rest"

definition b64_encode :: "nat list \<Rightarrow> jsstring" where
  "b64_encode bs = map b64_char (sextets bs) @ replicate ((3 - length bs mod 3) mod 3) 61"

definition btoa :: "jsstring \<Rightarrow> jsstring option" where
  "btoa s = (if list_all (\<lambda>c. c < 256) s then Some (b64_encode s) else None)"

text \<open>
  \<^verbatim>\<open>atob\<close> is the forgiving base64 decoding of the WHATWG Infra standard: ASCII
  whitespace is dropped; when the length is a multiple of four, one or two \<^verbatim>\<open>=\<close> at
  the end are dropped; a length of 1 modulo 4 or a character outside the alphabet
  raises (\<open>None\<close>); the bits left over at the end are discarded.
\<close>

definition is_ascii_whitespace :: "nat \<Rightarrow> bool" where
  "is_ascii_whitespace c = (c = 9 \<or> c = 10 \<or> c = 12 \<or> c = 13 \<or> c = 32)"

definition strip_padding :: "jsstring \<Rightarrow> jsstring" where
  "strip_padding d =
     (if length d mod 4 = 0 \<and> d \<noteq> [] \<and> last d = 61 then
        (let d1 = butlast d in if d1 \<noteq> [] \<and> last d1 = 61 then butlast d1 else d1)
      else d)"

fun octets :: "nat list \<Rightarrow> nat list" where
  "octets (a # b # c # d # rest) =
     [a * 4 + b div 16, (b mod 16) * 16 + c div 4, (c mod 4) * 64 + d] @ octets rest"
| "octets [a, b, c] = [a * 4 + b div 16, (b mod 16) * 16 + c div 4]"
| "octets [a, b] = [a * 4 + b div 16]"
| "octets [a] = []"
| "octets [] = []"

definition atob :: "jsstring \<Rightarrow> jsstring option" where
  "atob raw =
     (let d = strip_padding (filter (\<lambda>c. \<not> is_ascii_whitespace c) raw) in
      if length d mod 4 = 1 then None
      else (case those (map b64_val d) of None \<Rightarrow> None | Some vs \<Rightarrow> Some (octets vs)))"

subsection \<open>JSON values, \<^verbatim>\<open>JSON.stringify\<close> of a token, \<^verbatim>\<open>JSON.parse\<close>\<close>

text \<open>
  What \<^verbatim>\<open>JSON.parse\<close> returns.  A number is kept as its literal (no claim reads a
  numeric value); an object is the list of its properties in the order of their first
  appearance, a repeated key keeping its place and taking the last value.  (JavaScript
  moves keys that are array indices to the front; no object here has one.)
\<close>

datatype json =
  JNull
| JBool bool
| JNum jsstring
| JStr jsstring
| JArr "json list"
| JObj "(jsstring \<times> json) list"

fun obj_put :: "(jsstring \<times> json) list \<Rightarrow> jsstring \<Rightarrow> json \<Rightarrow> (jsstring \<times> json) list" where
  "obj_put [] k v = [(k, v)]"
| "obj_put ((k', v') # kvs) k v = (if k' = k then (k, v) # kvs else (k', v') # obj_put kvs k v)"

text \<open>
  \<^verbatim>\<open>QuoteJSONString\<close> of ECMAScript: the short escapes, \<^verbatim>\<open>\uXXXX\<close> (lower-case
  hexadecimal) for the other control characters and for a surrogate without its
  partner, every other code unit as it is.
\<close>

definition hex_digit :: "nat \<Rightarrow> nat" where
  "hex_digit n = (if n < 10 then 48 + n else 87 + n)"

definition unicode_escape :: "nat \<Rightarrow> jsstring" where
  "unicode_escape c =
     [92, 117, hex_digit (c div 4096 mod 16), hex_digit (c div 256 mod 16),
      hex_digit (c div 16 mod 16), hex_digit (c mod 16)]"

definition is_high_surrogate :: "nat \<Rightarrow> bool" where
  "is_high_surrogate c = (55296 \<le> c \<and> c \<le> 56319)"

definition is_low_surrogate :: "nat \<Rightarrow> bool" where
  "is_low_surrogate c = (56320 \<le> c \<and> c \<le> 57343)"

definition quote_unit :: "nat \<Rightarrow> jsstring" where
  "quote_unit c =
     (if c = 8 then [92, 98] else if c = 9 then [92, 116] else if c = 10 then [92, 110]
      else if c = 12 then [92, 102] else if c = 13 then [92, 114]
      else if c = 34 then [92, 34] else if c = 92 then [92, 92]
      else if c < 32 then unicode_escape c else [c])"

fun quote_units :: "jsstring \<Rightarrow> jsstring" where
  "quote_units [] = []"
| "quote_units [c] =
     (if is_high_surrogate c \<or> is_low_surrogate c then unicode_escape c else quote_unit c)"
| "quote_units (c # d # ds) =
     (if is_high_surrogate c then
        (if is_low_surrogate d then c # d # quote_units ds
         else unicode_escape c @ quote_units (d # ds))
      else if is_low_surrogate c then unicode_escape c @ quote_units (d # ds)
      else quote_unit c @ quote_units (d # ds))"

definition QuoteJSONString :: "jsstring \<Rightarrow> jsstring" where
  "QuoteJSONString s = 34 # quote_units s @ [34]"

text \<open>
  The JSON grammar of ECMA-404 as \<^verbatim>\<open>JSON.parse\<close> reads it.  A string body runs to the
  closing quote; control characters are refused, the escapes are undone.
\<close>

definition is_json_ws :: "nat \<Rightarrow> bool" where
  "is_json_ws c = (c = 9 \<or> c = 10 \<or> c = 13 \<or> c = 32)"

definition is_digit :: "nat \<Rightarrow> bool" where
  "is_digit c = (48 \<le> c \<and> c \<le> 57)"

definition hex_val :: "nat \<Rightarrow> nat option" where
  "hex_val c =
     (if 48 \<le> c \<and> c \<le> 57 then Some (c - 48)
      else if 97 \<le> c \<and> c \<le> 102 then Some (c - 87)
      else if 65 \<le> c \<and> c \<le> 70 then Some (c - 55)
      else None)"

definition unescape :: "nat \<Rightarrow> nat option" where
  "unescape e =
     (if e = 34 then Some 34 else if e = 92 then Some 92 else if e = 47 then Some 47
      else if e = 98 then Some 8 else if e = 102 then Some 12 else if e = 110 then Some 10
      else if e = 114 then Some 13 else if e = 116 then Some 9 else None)"

definition hex4 :: "nat \<Rightarrow> nat \<Rightarrow> nat \<Rightarrow> nat \<Rightarrow> nat option" where
  "hex4 h1 h2 h3 h4 =
     (case (hex_val h1, hex_val h2, hex_val h3, hex_val h4) of
        (Some a, Some b, Some c, Some d) \<Rightarrow> Some (a * 4096 + b * 256 + c * 16 + d)
      | _ \<Rightarrow> None)"

definition cons_unit :: "nat \<Rightarrow> (jsstring \<times> jsstring) option \<Rightarrow> (jsstring \<times> jsstring) option" where
  "cons_unit c r = map_option (\<lambda>(s, rest). (c # s, rest)) r"

fun parse_string_body :: "jsstring \<Rightarrow> (jsstring \<times> jsstring) option" where
  "parse_string_body [] = None"
| "parse_string_body [c] = (if c = 34 then Some ([], []) else None)"
| "parse_string_body (c # e # es) =
     (if c = 34 then Some ([], e # es)
      else if c = 92 then
        (if e = 117 then
           (case es of
              h1 # h2 # h3 # h4 # rest \<Rightarrow>
                (case hex4 h1 h2 h3 h4 of
                   None \<Rightarrow> None
                 | Some u \<Rightarrow> cons_unit u (parse_string_body rest))
            | _ \<Rightarrow> None)
         else
           (case unescape e of
              None \<Rightarrow> None
            | Some u \<Rightarrow> cons_unit u (parse_string_body es)))
      else if c < 32 then None
      else cons_unit c (parse_string_body (e # es)))"

text \<open>
  A number literal: \<^verbatim>\<open>-? (0 | [1-9][0-9]*) (. [0-9]+)? ([eE] [+-]? [0-9]+)?\<close>.  The
  result is the literal read and the rest of the input.
\<close>

definition parse_digits :: "jsstring \<Rightarrow> (jsstring \<times> jsstring) option" where
  "parse_digits s =
     (let ds = takeWhile is_digit s in
      if ds = [] then None else Some (ds, dropWhile is_digit s))"

definition parse_int :: "jsstring \<Rightarrow> (jsstring \<times> jsstring) option" where
  "parse_int s =
     (case s of [] \<Rightarrow> None | c # cs \<Rightarrow> if c = 48 then Some ([48], cs) else parse_digits s)"

definition parse_frac :: "jsstring \<Rightarrow> (jsstring \<times> jsstring) option" where
  "parse_frac s =
     (case s of
        [] \<Rightarrow> Some ([], s)
      | c # cs \<Rightarrow>
          if c = 46 then
            (case parse_digits cs of None \<Rightarrow> None | Some (ds, r) \<Rightarrow> Some (46 # ds, r))
          else Some ([], s))"

definition parse_sign :: "jsstring \<Rightarrow> jsstring \<times> jsstring" where
  "parse_sign s =
     (case s of [] \<Rightarrow> ([], s) | d # ds \<Rightarrow> if d = 43 \<or> d = 45 then ([d], ds) else ([], s))"

definition parse_exp :: "jsstring \<Rightarrow> (jsstring \<times> jsstring) option" where
  "parse_exp s =
     (case s of
        [] \<Rightarrow> Some ([], s)
      | c # cs \<Rightarrow>
          if c = 101 \<or> c = 69 then
            (case parse_digits (snd (parse_sign cs)) of
               None \<Rightarrow> None
             | Some (ds, r) \<Rightarrow> Some (c # fst (parse_sign cs) @ ds, r))
          else Some ([], s))"

definition parse_number :: "jsstring \<Rightarrow> (jsstring \<times> jsstring) option" where
  "parse_number s =
     (let sg = (case s of [] \<Rightarrow> [] | c # cs \<Rightarrow> if c = 45 then [45] else []) in
      case parse_int (drop (length sg) s) of
        None \<Rightarrow> None
      | Some (i, s2) \<Rightarrow>
          (case parse_frac s2 of
             None \<Rightarrow> None
           | Some (f, s3) \<Rightarrow>
               (case parse_exp s3 of
                  None \<Rightarrow> None
                | Some (e, s4) \<Rightarrow> Some (sg @ i @ f @ e, s4))))"

text \<open>
  Values, array elements and object members.  The recursion of the grammar is bounded
  by a counter that every call lowers; \<open>NoFuel\<close> says that the counter ran out,
  \<open>Rejected\<close> is the SyntaxError.  \<open>JSON_parse\<close> starts the counter at twice the length
  of the text plus one, which is enough for every text (lemma \<open>JSON_parse_total\<close>).
\<close>

datatype 'a parsed = Parsed 'a | Rejected | NoFuel

fun parse_value :: "nat \<Rightarrow> jsstring \<Rightarrow> (json \<times> jsstring) parsed"
  and parse_elements :: "nat \<Rightarrow> json list \<Rightarrow> jsstring \<Rightarrow> (json \<times> jsstring) parsed"
  and parse_members ::
    "nat \<Rightarrow> (jsstring \<times> json) list \<Rightarrow> jsstring \<Rightarrow> (json \<times> jsstring) parsed"
where
  "parse_value 0 s = NoFuel"
| "parse_value (Suc n) s =
     (case dropWhile is_json_ws s of
        [] \<Rightarrow> Rejected
      | c # cs \<Rightarrow>
          if c = 34 then
            (case parse_string_body cs of
               None \<Rightarrow> Rejected
             | Some (str, r) \<Rightarrow> Parsed (JStr str, r))
          else if c = 123 then
            (case dropWhile is_json_ws cs of
               [] \<Rightarrow> Rejected
             | d # ds \<Rightarrow> if d = 125 then Parsed (JObj [], ds) else parse_members n [] (d # ds))
          else if c = 91 then
            (case dropWhile is_json_ws cs of
               [] \<Rightarrow> Rejected
             | d # ds \<Rightarrow> if d = 93 then Parsed (JArr [], ds) else parse_elements n [] (d # ds))
          else if js_startsWith (c # cs) (js ''true'') then Parsed (JBool True, drop 4 (c # cs))
          else if js_startsWith (c # cs) (js ''false'') then Parsed (JBool False, drop 5 (c # cs))
          else if js_startsWith (c # cs) (js ''null'') then Parsed (JNull, drop 4 (c # cs))
          else
            (case parse_number (c # cs) of
               None \<Rightarrow> Rejected
             | Some (lit, r) \<Rightarrow> Parsed (JNum lit, r)))"
| "parse_elements 0 acc s = NoFuel"
| "parse_elements (Suc n) acc s =
     (case parse_value n s of
        NoFuel \<Rightarrow> NoFuel
      | Rejected \<Rightarrow> Rejected
      | Parsed (v, r) \<Rightarrow>
          (case dropWhile is_json_ws r of
             [] \<Rightarrow> Rejected
           | c # cs \<Rightarrow>
               if c = 44 then parse_elements n (acc @ [v]) cs
               else if c = 93 then Parsed (JArr (acc @ [v]), cs)
               else Rejected))"
| "parse_members 0 acc s = NoFuel"
| "parse_members (Suc n) acc s =
     (case dropWhile is_json_ws s of
        [] \<Rightarrow> Rejected
      | c # cs \<Rightarrow>
          if c \<noteq> 34 then Rejected
          else
            (case parse_string_body cs of
               None \<Rightarrow> Rejected
             | Some (k, r) \<Rightarrow>
                 (case dropWhile is_json_ws r of
                    [] \<Rightarrow> Rejected
                  | d # ds \<Rightarrow>
                      if d \<noteq> 58 then Rejected
                      else
                        (case parse_value n ds of
                           NoFuel \<Rightarrow> NoFuel
                         | Rejected \<Rightarrow> Rejected
                         | Parsed (v, r2) \<Rightarrow>
                             (case dropWhile is_json_ws r2 of
                                [] \<Rightarrow> Rejected
                              | e # es \<Rightarrow>
                                  if e = 44 then parse_members n (obj_put acc k v) es
                                  else if e = 125 then Parsed (JObj (obj_put acc k v), es)
                                  else Rejected)))))"

definition JSON_parse :: "jsstring \<Rightarrow> json option" where
  "JSON_parse src =
     (case parse_value (2 * length src + 1) src of
        Parsed (v, r) \<Rightarrow> if dropWhile is_json_ws r = [] then Some v else None
      | Rejected \<Rightarrow> None
      | NoFuel \<Rightarrow> None)"

subsection \<open>\<^verbatim>\<open>encodeToken\<close> and \<^verbatim>\<open>decodeToken\<close>\<close>

text \<open>
  \<^verbatim>\<open>PlaybackToken\<close>; the field \<^verbatim>\<open>context\<close> is written \<open>context'\<close>.  \<open>token_json\<close> is
  the object \<^verbatim>\<open>{ trackId, context }\<close> as a JavaScript value, and \<open>JSON_stringify_token\<close>
  is what \<^verbatim>\<open>JSON.stringify\<close> writes for it.
\<close>

record PlaybackToken =
  trackId :: jsstring
  context' :: jsstring

definition token_json :: "PlaybackToken \<Rightarrow> json" where
  "token_json t = JObj [(js ''trackId'', JStr (trackId t)), (js ''context'', JStr (context' t))]"

definition JSON_stringify_token :: "PlaybackToken \<Rightarrow> jsstring" where
  "JSON_stringify_token t =
     js ''{'' @ QuoteJSONString (js ''trackId'') @ js '':'' @ QuoteJSONString (trackId t) @ js '',''
       @ QuoteJSONString (js ''context'') @ js '':'' @ QuoteJSONString (context' t) @ js ''}''"

definition encodeToken :: "PlaybackToken \<Rightarrow> jsstring option" where
  "encodeToken t = btoa (JSON_stringify_token t)"

text \<open>
  \<^verbatim>\<open>decodeToken\<close>: whatever \<^verbatim>\<open>JSON.parse(atob(raw))\<close> returns, cast to
  \<^verbatim>\<open>PlaybackToken\<close> without a check, and \<^verbatim>\<open>null\<close> when either call raises.
\<close>

definition decodeToken :: "jsstring \<Rightarrow> json" where
  "decodeToken raw =
     (case atob raw of
        None \<Rightarrow> JNull
      | Some src \<Rightarrow> (case JSON_parse src of None \<Rightarrow> JNull | Some v \<Rightarrow> v))"

section \<open>Protocol B: the directive handlers (handlers/alexa-handler.ts)\<close>

subsection \<open>JavaScript values at run time\<close>

text \<open>
  The errors a handler can raise: a TypeError (a method called on a value that has
  none), the InvalidCharacterError of \<^verbatim>\<open>btoa\<close>, the error \<^verbatim>\<open>fetchPartyKit\<close>
  throws when its retries are used up, and the SyntaxError of \<^verbatim>\<open>res.json()\<close> on a body
  that is not JSON.
\<close>

datatype js_error = TypeError | InvalidCharacterError | FetchError | SyntaxError

text \<open>
  \<^verbatim>\<open>!v\<close> for a value that \<^verbatim>\<open>JSON.parse\<close> returned: \<^verbatim>\<open>null\<close>, \<^verbatim>\<open>false\<close>, the empty
  string and a number that is zero.  A literal is zero when its digits are, or when
  it lies at or below \<open>2 ^ -1075\<close>, which IEEE 754 rounding takes to zero.
\<close>

definition digits_val :: "jsstring \<Rightarrow> nat" where
  "digits_val ds = foldl (\<lambda>a c. a * 10 + (c - 48)) 0 ds"

definition num_is_zero :: "jsstring \<Rightarrow> bool" where
  "num_is_zero lit =
     (let m = takeWhile (\<lambda>c. c \<noteq> 101 \<and> c \<noteq> 69) lit;
          ex = drop (length m + 1) lit;
          ip = filter is_digit (takeWhile (\<lambda>c. c \<noteq> 46) m);
          fp = filter is_digit (dropWhile (\<lambda>c. c \<noteq> 46) m);
          D = digits_val (ip @ fp);
          E = (if ex \<noteq> [] \<and> hd ex = 45 then - int (digits_val (filter is_digit ex))
               else int (digits_val (filter is_digit ex))) - int (length fp)
      in D = 0 \<or> (E < 0 \<and> int D * 2 ^ 1075 \<le> 10 ^ nat (- E)))"

fun js_falsy :: "json \<Rightarrow> bool" where
  "js_falsy JNull = True"
| "js_falsy (JBool b) = (\<not> b)"
| "js_falsy (JNum lit) = num_is_zero lit"
| "js_falsy (JStr s) = (s = [])"
| "js_falsy (JArr xs) = False"
| "js_falsy (JObj kvs) = False"

text \<open>
  \<^verbatim>\<open>token.trackId\<close> and \<^verbatim>\<open>token.context\<close> on a value that is not \<^verbatim>\<open>null\<close>: the own
  property of an object, \<^verbatim>\<open>undefined\<close> (\<open>None\<close>) otherwise, since no primitive and no
  array carries a property of either name.
\<close>

fun js_get :: "json \<Rightarrow> jsstring \<Rightarrow> json option" where
  "js_get (JObj kvs) k = map_of kvs k"
| "js_get v k = None"

subsection \<open>\<^verbatim>\<open>findAdjacentTrack\<close>\<close>

datatype direction = Next | Previous

text \<open>
  The list a context stands for (lines 446 to 459): the playlist's \<^verbatim>\<open>trackIds\<close>
  (\<open>None\<close> when the playlist is unknown, where the function returns \<^verbatim>\<open>null\<close>), the ids of
  the artist's tracks, and all ids for every other context.
\<close>

definition contextTrackList :: "TursoDb \<Rightarrow> jsstring \<Rightarrow> jsstring list option" where
  "contextTrackList db ctx =
     (if js_startsWith ctx (js ''playlist::'') then
        (case getPlaylist db (js_slice ctx (length (js ''playlist::''))) of
           None \<Rightarrow> None
         | Some pl \<Rightarrow> Some (trackIds pl))
      else if js_startsWith ctx (js ''artist::'') then
        Some (map t_id (getTracksByArtistId db (js_slice ctx (length (js ''artist::'')))))
      else Some (getTrackIds db))"

text \<open>
  The token is the value \<^verbatim>\<open>decodeToken\<close> returned.  \<^verbatim>\<open>token.context === "single"\<close> is an
  equality of values; \<^verbatim>\<open>token.context.startsWith\<close> raises a TypeError unless the context
  is a string; \<^verbatim>\<open>trackList.indexOf(token.trackId)\<close> is \<open>-1\<close> unless the id is a string of
  the list.  \<open>Inr None\<close> is the result \<^verbatim>\<open>null\<close>.
\<close>

definition findAdjacentTrack :: "TursoDb \<Rightarrow> json \<Rightarrow> direction \<Rightarrow> js_error + Track option" where
  "findAdjacentTrack db token direction =
     (case js_get token (js ''context'') of
        Some (JStr ctx) \<Rightarrow>
          if ctx = js ''single'' then Inr None
          else
            (case contextTrackList db ctx of
               None \<Rightarrow> Inr None
             | Some trackList \<Rightarrow>
                 (let currentIndex =
                        (case js_get token (js ''trackId'') of
                           Some (JStr tid) \<Rightarrow> js_indexOf trackList tid
                         | _ \<Rightarrow> - 1)
                  in
                  if currentIndex = - 1 then Inr None
                  else
                    (let targetIndex =
                           (if direction = Next then currentIndex + 1 else currentIndex - 1)
                     in
                     case js_at trackList targetIndex of
                       None \<Rightarrow> Inr None
                     | Some targetId \<Rightarrow>
                         if targetId = [] then Inr None else Inr (getTrack db targetId))))
      | _ \<Rightarrow> Inl TypeError)"

subsection \<open>Responses\<close>

text \<open>
  \<^verbatim>\<open>UrlBuilder\<close> is the interface the handlers are given.  A response is one of the four
  shapes of utils/alexa-response.ts: a Play directive (which ends the session) with an
  optional speech, a Stop directive, a speech with its \<^verbatim>\<open>shouldEndSession\<close>, or the
  empty response.
\<close>

record UrlBuilder =
  mp3 :: "jsstring \<Rightarrow> jsstring"
  art :: "jsstring \<Rightarrow> jsstring"

datatype PlayBehavior = REPLACE_ALL | ENQUEUE | REPLACE_ENQUEUED

record Stream =
  s_url :: jsstring
  s_token :: jsstring
  s_offsetInMilliseconds :: int
  s_expectedPreviousToken :: "jsstring option"

record PlayDirective =
  playBehavior :: PlayBehavior
  stream :: Stream
  d_title :: jsstring
  d_subtitle :: jsstring
  d_art :: jsstring

datatype AlexaResponse =
  PlayResponse PlayDirective "jsstring option"
| StopResponse
| SpeechResponse jsstring bool
| EmptyResponse

definition buildPlayResponse ::
  "Track \<Rightarrow> jsstring \<Rightarrow> jsstring \<Rightarrow> PlaybackToken \<Rightarrow> PlayBehavior \<Rightarrow> int \<Rightarrow> jsstring option
     \<Rightarrow> jsstring option \<Rightarrow> js_error + AlexaResponse" where
  "buildPlayResponse track mp3Url artUrl token behavior offsetMs expectedPreviousToken speechText =
     (case encodeToken token of
        None \<Rightarrow> Inl InvalidCharacterError
      | Some encodedToken \<Rightarrow>
          Inr (PlayResponse
                \<lparr>playBehavior = behavior,
                 stream =
                   \<lparr>s_url = mp3Url, s_token = encodedToken, s_offsetInMilliseconds = offsetMs,
                    s_expectedPreviousToken =
                      (if behavior = ENQUEUE \<and> expectedPreviousToken \<noteq> None
                          \<and> expectedPreviousToken \<noteq> Some []
                       then expectedPreviousToken else None)\<rparr>,
                 d_title = t_title track, d_subtitle = t_artist track, d_art = artUrl\<rparr>
                (if speechText \<noteq> None \<and> speechText \<noteq> Some [] then speechText else None)))"

subsection \<open>The play intents\<close>

text \<open>
  The Japanese texts of the handlers, as code units: \<open>msg_not_found\<close> follows a song
  name (" was not found."), \<open>msg_play\<close> follows a title (" will be played."),
  \<open>msg_artist_not_found\<close> and \<open>msg_artist_play\<close> follow an artist's name,
  \<open>msg_ask_playlist_name\<close> asks for a playlist name, \<open>msg_playlist_open\<close> and
  \<open>msg_playlist_not_found\<close> enclose a playlist name that was not found,
  \<open>msg_playlist_empty\<close> says that the playlist holds no track, \<open>msg_playlist\<close> is
  the word "playlist" and a space, and \<open>msg_no_tracks\<close> says that there is nothing to play.
\<close>

definition msg_not_found :: jsstring where
  "msg_not_found =
     [32, 12364, 35211, 12388, 12363, 12426, 12414, 12379, 12435, 12391, 12375, 12383, 12290]"

definition msg_play :: jsstring where
  "msg_play = [32, 12434, 20877, 29983, 12375, 12414, 12377, 12290]"

definition msg_artist_not_found :: jsstring where
  "msg_artist_not_found =
     [32, 12398, 26354, 12364, 35211, 12388, 12363, 12426, 12414, 12379, 12435, 12391, 12375,
      12383, 12290]"

definition msg_artist_play :: jsstring where
  "msg_artist_play = [32, 12398, 26354, 12434, 20877, 29983, 12375, 12414, 12377, 12290]"

definition msg_ask_playlist_name :: jsstring where
  "msg_ask_playlist_name =
     [12503, 12524, 12452, 12522, 12473, 12488, 21517, 12434, 35328, 12387, 12390, 12367,
      12384, 12373, 12356, 12290]"

definition msg_playlist_open :: jsstring where
  "msg_playlist_open = [12300]"

definition msg_playlist_not_found :: jsstring where
  "msg_playlist_not_found =
     [12301, 12392, 12356, 12358, 12503, 12524, 12452, 12522, 12473, 12488, 12364, 35211,
      12388, 12363, 12426, 12414, 12379, 12435, 12391, 12375, 12383, 12290]"

definition msg_playlist_empty :: jsstring where
  "msg_playlist_empty =
     [12503, 12524, 12452, 12522, 12473, 12488, 12395, 26354, 12364, 21547, 12414, 12428,
      12390, 12356, 12414, 12379, 12435, 12290]"

definition msg_playlist :: jsstring where
  "msg_playlist = [12503, 12524, 12452, 12522, 12473, 12488, 32]"

definition msg_no_tracks :: jsstring where
  "msg_no_tracks =
     [20877, 29983, 12391, 12365, 12427, 26354, 12364, 12354, 12426, 12414, 12379, 12435, 12290]"

definition handlePlayAllIntent :: "TursoDb \<Rightarrow> UrlBuilder \<Rightarrow> js_error + AlexaResponse" where
  "handlePlayAllIntent db urlBuilder =
     (case getTracks db of
        [] \<Rightarrow> Inr (SpeechResponse msg_no_tracks False)
      | first # others \<Rightarrow>
          buildPlayResponse first (mp3 urlBuilder (t_id first)) (art urlBuilder (t_id first))
            \<lparr>trackId = t_id first, context' = js ''all''\<rparr> REPLACE_ALL 0 None
            (Some (t_title first @ msg_play)))"

definition handlePlaySongIntent ::
  "TursoDb \<Rightarrow> jsstring option \<Rightarrow> UrlBuilder \<Rightarrow> js_error + AlexaResponse" where
  "handlePlaySongIntent db songName urlBuilder =
     (case songName of
        None \<Rightarrow> handlePlayAllIntent db urlBuilder
      | Some name \<Rightarrow>
          if name = [] then handlePlayAllIntent db urlBuilder
          else
            (case searchTracksByTitle db name of
               [] \<Rightarrow> Inr (SpeechResponse (name @ msg_not_found) False)
             | first # others \<Rightarrow>
                 buildPlayResponse first (mp3 urlBuilder (t_id first))
                   (art urlBuilder (t_id first))
                   \<lparr>trackId = t_id first, context' = js ''single''\<rparr> REPLACE_ALL 0 None
                   (Some (t_title first @ msg_play))))"

definition handlePlayArtistIntent ::
  "TursoDb \<Rightarrow> jsstring option \<Rightarrow> UrlBuilder \<Rightarrow> js_error + AlexaResponse" where
  "handlePlayArtistIntent db artistName urlBuilder =
     (case artistName of
        None \<Rightarrow> handlePlayAllIntent db urlBuilder
      | Some name \<Rightarrow>
          if name = [] then handlePlayAllIntent db urlBuilder
          else
            (case searchTracksByArtist db name of
               [] \<Rightarrow> Inr (SpeechResponse (name @ msg_artist_not_found) False)
             | first # others \<Rightarrow>
                 buildPlayResponse first (mp3 urlBuilder (t_id first))
                   (art urlBuilder (t_id first))
                   \<lparr>trackId = t_id first, context' = js ''artist::'' @ t_artistId first\<rparr>
                   REPLACE_ALL 0 None (Some (t_artist first @ msg_artist_play))))"

definition handlePlayPlaylistIntent ::
  "TursoDb \<Rightarrow> jsstring option \<Rightarrow> UrlBuilder \<Rightarrow> js_error + AlexaResponse" where
  "handlePlayPlaylistIntent db playlistName urlBuilder =
     (case playlistName of
        None \<Rightarrow> Inr (SpeechResponse msg_ask_playlist_name False)
      | Some name \<Rightarrow>
          if name = [] then Inr (SpeechResponse msg_ask_playlist_name False)
          else
            (case searchPlaylistsByName db name of
               [] \<Rightarrow>
                 Inr (SpeechResponse (msg_playlist_open @ name @ msg_playlist_not_found) False)
             | pl # others \<Rightarrow>
                 if length (trackIds pl) = 0 then
                   Inr (SpeechResponse (msg_playlist_open @ name @ msg_playlist_not_found) False)
                 else
                   (case getPlaylistTracks db (p_id pl) of
                      [] \<Rightarrow> Inr (SpeechResponse msg_playlist_empty False)
                    | first # rest \<Rightarrow>
                        buildPlayResponse first (mp3 urlBuilder (t_id first))
                          (art urlBuilder (t_id first))
                          \<lparr>trackId = t_id first, context' = js ''playlist::'' @ p_id pl\<rparr>
                          REPLACE_ALL 0 None (Some (msg_playlist @ p_name pl @ msg_play)))))"

subsection \<open>The player events\<close>

text \<open>
  Of the request, \<^verbatim>\<open>handleAudioPlayerEvent\<close> reads \<^verbatim>\<open>request.type\<close> and
  \<^verbatim>\<open>request.token\<close>, the token of the event payload.  Where the Play response is built,
  \<^verbatim>\<open>findAdjacentTrack\<close> has returned a track, so \<^verbatim>\<open>token.context\<close> is a string.
\<close>

record PlayerEvent =
  request_type :: jsstring
  request_token :: "jsstring option"

definition handleAudioPlayerEvent ::
  "TursoDb \<Rightarrow> PlayerEvent \<Rightarrow> UrlBuilder \<Rightarrow> js_error + AlexaResponse" where
  "handleAudioPlayerEvent db request urlBuilder =
     (if request_type request = js ''AudioPlayer.PlaybackNearlyFinished'' then
        (case request_token request of
           None \<Rightarrow> Inr EmptyResponse
         | Some currentToken \<Rightarrow>
             if currentToken = [] then Inr EmptyResponse
             else
               (let token = decodeToken currentToken in
                if js_falsy token then Inr EmptyResponse
                else
                  (case findAdjacentTrack db token Next of
                     Inl e \<Rightarrow> Inl e
                   | Inr None \<Rightarrow> Inr EmptyResponse
                   | Inr (Some nextTrack) \<Rightarrow>
                       (case js_get token (js ''context'') of
                          Some (JStr ctx) \<Rightarrow>
                            buildPlayResponse nextTrack (mp3 urlBuilder (t_id nextTrack))
                              (art urlBuilder (t_id nextTrack))
                              \<lparr>trackId = t_id nextTrack, context' = ctx\<rparr> ENQUEUE 0
                              (Some currentToken) None
                        | _ \<Rightarrow> Inl TypeError))))
      else Inr EmptyResponse)"

text \<open>
  \<^verbatim>\<open>handleAlexaRoute\<close> of server.ts for a request whose type starts with
  \<^verbatim>\<open>AudioPlayer.\<close>: \<^verbatim>\<open>handleAlexaRequest\<close> compares the type with \<^verbatim>\<open>LaunchRequest\<close> and
  \<^verbatim>\<open>SessionEndedRequest\<close> and then hands such a request to \<^verbatim>\<open>handleAudioPlayerEvent\<close>;
  the route sends what the handler returns, and when the handler raises, its
  \<^verbatim>\<open>catch\<close> sends \<^verbatim>\<open>{ version: "1.0", response: {} }\<close>, the value of
  \<^verbatim>\<open>buildEmptyResponse\<close>.  The result is \<open>None\<close> for a request of another type, whose
  handlers are not modelled here.  The URL builder, which the route makes from the
  address of the request, is a parameter.
\<close>

definition handleAlexaRoute :: "TursoDb \<Rightarrow> PlayerEvent \<Rightarrow> UrlBuilder \<Rightarrow> AlexaResponse option" where
  "handleAlexaRoute db request urlBuilder =
     (if js_startsWith (request_type request) (js ''AudioPlayer.'') then
        (case handleAudioPlayerEvent db request urlBuilder of
           Inl err \<Rightarrow> Some EmptyResponse
         | Inr result \<Rightarrow> Some result)
      else None)"

section \<open>Protocol A: the Lambda handlers\<close>

subsection \<open>The client (clients/partykit-client.ts)\<close>

text \<open>
  The server as the client sees it: what a POST to \<^verbatim>\<open>/api/resolve\<close>, \<^verbatim>\<open>/api/next\<close> and
  \<^verbatim>\<open>/api/previous\<close> answers, \<open>None\<close> when \<^verbatim>\<open>fetch\<close> itself fails.  The body of an
  answer is \<open>None\<close> when it is not JSON, and is else read through the interface the
  client casts it to.  \<^verbatim>\<open>fetchPartyKit\<close> returns an answer whose status is below 500 and
  throws, after its retries, on any other outcome (the retries of a server that answers
  the same again are not modelled).  Each of the three calls returns its not-found
  value without reading the body when the status is not one of 200 to 299.
\<close>

record PartyKit =
  post_resolve :: "jsstring \<Rightarrow> jsstring \<Rightarrow> ResolveResult option Response option"
  post_next :: "jsstring \<Rightarrow> jsstring option \<Rightarrow> NextPrevResult option Response option"
  post_previous :: "jsstring \<Rightarrow> jsstring option \<Rightarrow> NextPrevResult option Response option"

definition res_ok :: "'a Response \<Rightarrow> bool" where
  "res_ok res = (200 \<le> status res \<and> status res \<le> 299)"

definition fetchPartyKit :: "'a Response option \<Rightarrow> js_error + 'a Response" where
  "fetchPartyKit answer =
     (case answer of
        None \<Rightarrow> Inl FetchError
      | Some res \<Rightarrow> if res_ok res \<or> status res < 500 then Inr res else Inl FetchError)"

definition res_json :: "'a option Response \<Rightarrow> js_error + 'a" where
  "res_json res = (case body res of None \<Rightarrow> Inl SyntaxError | Some v \<Rightarrow> Inr v)"

definition resolveEntity :: "PartyKit \<Rightarrow> jsstring \<Rightarrow> jsstring \<Rightarrow> js_error + ResolveResult" where
  "resolveEntity pk entityId entityType =
     (case fetchPartyKit (post_resolve pk entityId entityType) of
        Inl e \<Rightarrow> Inl e
      | Inr res \<Rightarrow> if \<not> res_ok res then Inr r_none else res_json res)"



subsection \<open>The routes of the server (server.ts)\<close>














subsection \<open>The responses (utils/response-builder.ts)\<close>

text \<open>
  An item as \<^verbatim>\<open>buildItem\<close> fills it; the constant parts are left out.  \<open>urls\<close> stands
  for \<^verbatim>\<open>buildMp3Url\<close> and \<^verbatim>\<open>buildArtUrl\<close>, which format a URL from the server's base
  address and the track id.  The \<^verbatim>\<open>messageId\<close> of a response, a fresh UUID, is left out.
\<close>

record Item =
  item_id :: jsstring
  item_name :: jsstring
  item_art :: jsstring
  next_enabled :: bool
  previous_enabled :: bool
  stream_id :: jsstring
  stream_uri :: jsstring
  stream_offset :: int

datatype MusicResponse =
  GetPlayableContentResponse jsstring
| ContentNotFoundResponse
| InitiateResponse jsstring Item
| GetItemResponse Item bool
| QueueFinishedResponse





subsection \<open>Selection and initiation\<close>

text \<open>
  \<^verbatim>\<open>toLowerCase\<close> on the entity types, which are upper-case ASCII words.
\<close>

definition toLowerCase :: "jsstring \<Rightarrow> jsstring" where
  "toLowerCase s = map (\<lambda>c. if 65 \<le> c \<and> c \<le> 90 then c + 32 else c) s"

record SelectionAttribute =
  attr_type :: jsstring
  attr_entityId :: jsstring

definition handleGetPlayableContent ::
  "PartyKit \<Rightarrow> SelectionAttribute list \<Rightarrow> js_error + MusicResponse" where
  "handleGetPlayableContent pk attributes =
     (case find (\<lambda>attr. attr_type attr = js ''TRACK'' \<or> attr_type attr = js ''ARTIST''
                        \<or> attr_type attr = js ''PLAYLIST'') attributes of
        None \<Rightarrow>
          (case resolveEntity pk [] (js ''ALL'') of
             Inl e \<Rightarrow> Inl e
           | Inr result \<Rightarrow>
               if \<not> r_found result then Inr ContentNotFoundResponse
               else Inr (GetPlayableContentResponse (js ''content::all::'')))
      | Some attr \<Rightarrow>
          if attr_entityId attr = [] then
            (case resolveEntity pk [] (js ''ALL'') of
               Inl e \<Rightarrow> Inl e
             | Inr result \<Rightarrow>
                 if \<not> r_found result then Inr ContentNotFoundResponse
                 else Inr (GetPlayableContentResponse (js ''content::all::'')))
          else
            (case resolveEntity pk (attr_entityId attr) (attr_type attr) of
               Inl e \<Rightarrow> Inl e
             | Inr result \<Rightarrow>
                 if \<not> r_found result then Inr ContentNotFoundResponse
                 else Inr (GetPlayableContentResponse
                             (js ''content::'' @ toLowerCase (attr_type attr) @ js ''::''
                                @ attr_entityId attr))))"




subsection \<open>The queue-lifecycle calls\<close>






section \<open>Well-formed storage and an example database\<close>

text \<open>
  The ids the code writes: \<^verbatim>\<open>generateTrackId\<close> gives \<^verbatim>\<open>track.\<close> and a UUID,
  \<^verbatim>\<open>generatePlaylistId\<close> gives \<^verbatim>\<open>pl.\<close> and a UUID, \<^verbatim>\<open>deriveArtistId\<close> gives
  \<^verbatim>\<open>artist.\<close> and a number in base 36 (a migrated row may hold the empty artist id).
  So a stored track or playlist id is not empty and every stored id is made of code
  units below 256.
\<close>

definition latin1 :: "jsstring \<Rightarrow> bool" where
  "latin1 s = list_all (\<lambda>c. c < 256) s"

definition valid_id :: "jsstring \<Rightarrow> bool" where
  "valid_id i = (i \<noteq> [] \<and> latin1 i)"

definition valid_storage :: "TursoDb \<Rightarrow> bool" where
  "valid_storage db =
     (list_all (\<lambda>t. valid_id (t_id t) \<and> latin1 (t_artistId t)) (tracks_rows db)
      \<and> list_all (\<lambda>r. valid_id (row_id r)) (playlists_rows db))"

text \<open>
  Three tracks, \<open>t1\<close> the newest, the first and the third by one artist, and one
  playlist that holds the third track and then the first.  The stand-ins for the
  \<^verbatim>\<open>LIKE\<close> conditions accept a text that contains the query.
\<close>

definition demo_track :: "string \<Rightarrow> string \<Rightarrow> string \<Rightarrow> string \<Rightarrow> Track" where
  "demo_track i ti ar aid =
     \<lparr>t_id = js i, t_title = js ti, t_artist = js ar, t_artistId = js aid, t_album = [],
      t_duration = 180, t_addedAt = js ''2024-01-01 00:00:00''\<rparr>"

definition demo_t1 :: Track where
  "demo_t1 = demo_track ''t1'' ''Alpha'' ''Ann'' ''artist.a''"

definition demo_t2 :: Track where
  "demo_t2 = demo_track ''t2'' ''Beta'' ''Bob'' ''artist.b''"

definition demo_t3 :: Track where
  "demo_t3 = demo_track ''t3'' ''Gamma'' ''Ann'' ''artist.a''"

definition demo_db :: TursoDb where
  "demo_db =
     \<lparr>tracks_rows = [demo_t1, demo_t2, demo_t3],
      playlists_rows =
        [\<lparr>row_id = js ''pl.1'', row_name = js ''Mix'', row_created_at = js ''2024-01-02 00:00:00'',
          row_updated_at = js ''2024-01-02 00:00:00'', row_track_ids = [js ''t3'', js ''t1'']\<rparr>],
      title_like = (\<lambda>q t. js_includes (t_title t) q),
      artist_like = (\<lambda>q t. js_includes (t_artist t) q),
      name_like = (\<lambda>q r. js_includes (row_name r) q)\<rparr>"

definition demo_urls :: UrlBuilder where
  "demo_urls = \<lparr>mp3 = (\<lambda>i. js ''/mp3/'' @ i), art = (\<lambda>i. js ''/art/'' @ i)\<rparr>"

text \<open>
  A playlist row of a given id, name and entries; the raw token \<^verbatim>\<open>encodeToken\<close> writes
  for a track id in the context \<^verbatim>\<open>all\<close>; and a token that no response of the skill
  carries, the base64 text of \<^verbatim>\<open>{"trackId":"t1","context":"\u3042"}\<close>, whose context
  is the one code unit 12354.
\<close>

definition demo_playlist :: "string \<Rightarrow> string \<Rightarrow> jsstring list \<Rightarrow> PlaylistRow" where
  "demo_playlist i n entries =
     \<lparr>row_id = js i, row_name = js n, row_created_at = js ''2024-01-02 00:00:00'',
      row_updated_at = js ''2024-01-02 00:00:00'', row_track_ids = entries\<rparr>"

definition demo_token :: "string \<Rightarrow> jsstring" where
  "demo_token i = b64_encode (JSON_stringify_token \<lparr>trackId = js i, context' = js ''all''\<rparr>)"

definition demo_forged :: jsstring where
  "demo_forged = js ''eyJ0cmFja0lkIjoidDEiLCJjb250ZXh0IjoiXHUzMDQyIn0=''"

section \<open>The words of the specification\<close>



text \<open>
  The Play directive at offset 0 for a track, with its encoded token and the token the
  player is expected to hold.
\<close>

definition playOf ::
  "UrlBuilder \<Rightarrow> Track \<Rightarrow> PlayBehavior \<Rightarrow> jsstring \<Rightarrow> jsstring option \<Rightarrow> PlayDirective" where
  "playOf urls track behavior enc prev =
     \<lparr>playBehavior = behavior,
      stream = \<lparr>s_url = mp3 urls (t_id track), s_token = enc, s_offsetInMilliseconds = 0,
                s_expectedPreviousToken = prev\<rparr>,
      d_title = t_title track, d_subtitle = t_artist track, d_art = art urls (t_id track)\<rparr>"

text \<open>The near-end-of-track event that carries a token, or none.\<close>

definition nearlyFinished :: "jsstring option \<Rightarrow> PlayerEvent" where
  "nearlyFinished tok =
     \<lparr>request_type = js ''AudioPlayer.PlaybackNearlyFinished'', request_token = tok\<rparr>"

section \<open>Proofs: the ContentReference decoder\<close>

lemma split_from_nonempty: "split_from sep cur s \<noteq> []"
  by (induction s arbitrary: cur) auto

lemma includes_skip_prefix:
  "58 \<notin> set u \<Longrightarrow> js_includes (u @ v) [58, 58] = js_includes v [58, 58]"
  by (induction u) (auto simp: js_startsWith_def)

lemma includes_found: "js_includes (u @ 58 # 58 # v) [58, 58]"
  by (induction u) (auto simp: js_startsWith_def)

lemma split_no_separator:
  "\<not> js_includes t sep \<Longrightarrow> split_from sep cur t = [cur @ t]"
  by (induction t arbitrary: cur) auto

lemma split_colons_prefix:
  "58 \<notin> set u \<Longrightarrow>
   split_from [58, 58] cur (u @ 58 # 58 # rest) = (cur @ u) # split_from [58, 58] [] rest"
  by (induction u arbitrary: cur) (auto simp: js_startsWith_def)

lemma split_hyphen_prefix:
  "45 \<notin> set u \<Longrightarrow>
   split_from [45] cur (u @ 45 # rest) = (cur @ u) # split_from [45] [] rest"
  by (induction u arbitrary: cur) (auto simp: js_startsWith_def)

lemma join_split_char: "js_join (split_from [c] cur s) [c] = cur @ s"
proof (induction s arbitrary: cur)
  case Nil
  show ?case by simp
next
  case (Cons d ds)
  show ?case
  proof (cases "d = c")
    case True
    obtain y ys where ys: "split_from [c] [] ds = y # ys"
      using split_from_nonempty [of "[c]" "[]" ds] by (cases "split_from [c] [] ds") auto
    have "js_join (y # ys) [c] = ds"
      using Cons.IH [of "[]"] ys by simp
    then show ?thesis using True ys by (simp add: js_startsWith_def)
  next
    case False
    then show ?thesis using Cons.IH [of "cur @ [d]"] by (simp add: js_startsWith_def)
  qed
qed

lemma parse_current:
  assumes "58 \<notin> set kind" and "\<not> js_includes entityId (js ''::'')"
  shows "parseContentId (currentFormat kind entityId) = (kind, entityId)"
proof -
  have e: "\<not> js_includes entityId [58, 58]" using assms(2) by (simp add: js_def)
  have inc: "js_includes (currentFormat kind entityId) (js ''::'')"
    using includes_found [of "[99, 111, 110, 116, 101, 110, 116]" "kind @ 58 # 58 # entityId"]
    by (simp add: currentFormat_def js_def)
  have "split_from [58, 58] [] (currentFormat kind entityId)
        = [js ''content'', kind, entityId]"
    using split_colons_prefix [OF assms(1), of "[]" entityId] split_no_separator [OF e, of "[]"]
    by (simp add: currentFormat_def js_def js_startsWith_def)
  then show ?thesis using inc
    by (simp add: parseContentId_def js_split_def nth_or_def js_def)
qed

lemma parse_legacy:
  assumes "58 \<notin> set kind" and "45 \<notin> set kind" and "\<not> js_includes entityId (js ''::'')"
  shows "parseContentId (legacyFormat kind entityId) = (kind, entityId)"
proof -
  have e: "\<not> js_includes entityId [58, 58]" using assms(3) by (simp add: js_def)
  have "\<not> js_includes (kind @ 45 # entityId) [58, 58]"
    using includes_skip_prefix [OF assms(1), of "45 # entityId"] e
    by (simp add: js_startsWith_def)
  then have inc: "\<not> js_includes (legacyFormat kind entityId) (js ''::'')"
    by (simp add: legacyFormat_def js_def js_startsWith_def)
  have "kind @ 45 # entityId \<noteq> [97, 108, 108]"
  proof
    assume h: "kind @ 45 # entityId = [97, 108, 108]"
    have "45 \<in> set (kind @ 45 # entityId)" by simp
    then have "(45::nat) \<in> set [97, 108, 108]" unfolding h .
    then show False by simp
  qed
  then have ne: "legacyFormat kind entityId \<noteq> js ''content-all''"
    by (simp add: legacyFormat_def js_def)
  have "split_from [45] [] (legacyFormat kind entityId)
        = js ''content'' # kind # split_from [45] [] entityId"
    using split_hyphen_prefix [OF assms(2), of "[]" entityId]
    by (simp add: legacyFormat_def js_def js_startsWith_def)
  then show ?thesis using inc ne join_split_char [of 45 "[]" entityId]
    by (simp add: parseContentId_def js_split_def nth_or_def js_def)
qed

lemma parse_content_all: "parseContentId (js ''content-all'') = (js ''all'', [])"
  by (simp add: parseContentId_def js_def js_startsWith_def)

text \<open>
  Claim C4.  For every kind of reference (all, track, artist, playlist) and every entity
  id that does not contain \<^verbatim>\<open>::\<close>, the decoder reads the kind and the entity id from
  the current form \<^verbatim>\<open>content::kind::entityId\<close>, and it reads the same pair from the
  legacy form \<^verbatim>\<open>content-kind-entityId\<close> (the kind is the second hyphen-delimited
  segment, the entity id is the rest, hyphens included).  The legacy value
  \<^verbatim>\<open>content-all\<close> is read as the kind \<^verbatim>\<open>all\<close>.
\<close>

theorem contentId_formats_agree:
  assumes "kind \<in> set contentKinds" and "\<not> js_includes entityId (js ''::'')"
  shows "parseContentId (currentFormat kind entityId) = (kind, entityId)
       \<and> parseContentId (legacyFormat kind entityId)
           = parseContentId (currentFormat kind entityId)
       \<and> parseContentId (js ''content-all'') = (js ''all'', [])"
proof -
  have k: "58 \<notin> set kind" "45 \<notin> set kind"
    using assms(1) by (auto simp: contentKinds_def js_def)
  show ?thesis
    using parse_content_all parse_current [OF k(1) assms(2)] parse_legacy [OF k assms(2)] by simp
qed

theorem contentId_formats_agree_witness:
  "js ''playlist'' \<in> set contentKinds \<and> \<not> js_includes (js ''pl.1-2'') (js ''::'')
   \<and> parseContentId (currentFormat (js ''playlist'') (js ''pl.1-2''))
       = (js ''playlist'', js ''pl.1-2'')
   \<and> parseContentId (legacyFormat (js ''playlist'') (js ''pl.1-2''))
       = parseContentId (currentFormat (js ''playlist'') (js ''pl.1-2''))"
proof -
  have k: "js ''playlist'' \<in> set contentKinds" by (simp add: contentKinds_def)
  have e: "\<not> js_includes (js ''pl.1-2'') (js ''::'')" by (simp add: js_def js_startsWith_def)
  show ?thesis using k e contentId_formats_agree [OF k e] by simp
qed

section \<open>Proofs: storage\<close>

lemma getTrack_SomeD: "getTrack db i = Some t \<Longrightarrow> t \<in> set (tracks_rows db) \<and> t_id t = i"
  by (auto simp: getTrack_def find_Some_iff)

lemma stored_id_nonempty: "valid_storage db \<Longrightarrow> getTrack db i = Some t \<Longrightarrow> i \<noteq> [] \<and> latin1 i"
  using getTrack_SomeD [of db i t]
  by (auto simp: valid_storage_def valid_id_def list_all_iff)

lemma stored_track_valid:
  "valid_storage db \<Longrightarrow> t \<in> set (tracks_rows db) \<Longrightarrow> latin1 (t_id t) \<and> latin1 (t_artistId t)"
  by (auto simp: valid_storage_def valid_id_def list_all_iff)

lemma playlist_tracks_stored: "t \<in> set (getPlaylistTracks db i) \<Longrightarrow> t \<in> set (tracks_rows db)"
  by (auto simp: getPlaylistTracks_def)

lemma found_playlist_valid:
  "valid_storage db \<Longrightarrow> pl \<in> set (searchPlaylistsByName db q) \<Longrightarrow> latin1 (p_id pl)"
  by (auto simp: valid_storage_def valid_id_def list_all_iff searchPlaylistsByName_def
      rowToPlaylist_def)

lemma indexOf3:
  assumes "distinct [a, b, c]"
  shows "js_indexOf [a, b, c] a = 0" "js_indexOf [a, b, c] b = 1" "js_indexOf [a, b, c] c = 2"
    "x \<notin> set [a, b, c] \<Longrightarrow> js_indexOf [a, b, c] x = - 1"
  using assms by (auto simp: Let_def)

subsection \<open>The example database\<close>

lemma demo_ids:
  "t_id demo_t1 = js ''t1''" "t_id demo_t2 = js ''t2''" "t_id demo_t3 = js ''t3''"
  by (simp_all add: demo_t1_def demo_t2_def demo_t3_def demo_track_def)

lemma demo_ids_differ:
  "js ''t1'' \<noteq> js ''t2''" "js ''t1'' \<noteq> js ''t3''" "js ''t2'' \<noteq> js ''t3''"
  "js ''t2'' \<noteq> js ''t1''" "js ''t3'' \<noteq> js ''t1''" "js ''t3'' \<noteq> js ''t2''"
  "js ''t1'' \<noteq> []" "js ''t2'' \<noteq> []" "js ''t3'' \<noteq> []"
  by (simp_all add: js_def)

lemma demo_getTrackIds: "getTrackIds demo_db = [js ''t1'', js ''t2'', js ''t3'']"
  by (simp add: getTrackIds_def demo_db_def demo_ids)

lemma demo_getTracks: "getTracks demo_db = [demo_t1, demo_t2, demo_t3]"
  by (simp add: getTracks_def demo_db_def)

lemma demo_getTrack:
  "getTrack demo_db (js ''t1'') = Some demo_t1" "getTrack demo_db (js ''t2'') = Some demo_t2"
  "getTrack demo_db (js ''t3'') = Some demo_t3"
  by (simp_all add: getTrack_def demo_db_def demo_ids demo_ids_differ)

lemma demo_valid: "valid_storage demo_db"
  by (simp add: valid_storage_def valid_id_def latin1_def demo_db_def demo_t1_def demo_t2_def
      demo_t3_def demo_track_def js_def)

lemma demo_request_list: "requestTrackList demo_db None = Some [js ''t1'', js ''t2'', js ''t3'']"
  by (simp add: requestTrackList_def demo_getTrackIds)

lemma demo_context_list:
  "contextTrackList demo_db (js ''all'') = Some [js ''t1'', js ''t2'', js ''t3'']"
  by (simp add: contextTrackList_def demo_getTrackIds js_startsWith_def)
     (simp add: js_def)

lemma demo_playlist_tracks: "getPlaylistTracks demo_db (js ''pl.1'') = [demo_t3, demo_t1]"
  by (simp add: getPlaylistTracks_def demo_db_def demo_ids demo_ids_differ)

section \<open>Proofs: adjacency\<close>

text \<open>
  Claim C9.  For every token whose context is \<^verbatim>\<open>single\<close>, \<^verbatim>\<open>findAdjacentTrack\<close> returns
  no track in the next and in the previous direction, whatever the track id and
  whatever storage holds.
\<close>

theorem single_context_closed:
  "findAdjacentTrack db (token_json \<lparr>trackId = tid, context' = js ''single''\<rparr>) direction
     = Inr None"
  by (simp add: findAdjacentTrack_def token_json_def js_def)

theorem single_context_closed_witness:
  "findAdjacentTrack demo_db (token_json \<lparr>trackId = js ''t1'', context' = js ''single''\<rparr>) Next
     = Inr None
   \<and> findAdjacentTrack demo_db (token_json \<lparr>trackId = js ''t1'', context' = js ''single''\<rparr>)
       Previous = Inr None"
  using single_context_closed [of demo_db "js ''t1''" Next]
    single_context_closed [of demo_db "js ''t1''" Previous] by simp

text \<open>
  Claim C3.  Let the list a request resolves to have length \<open>N\<close> and let the current
  track stand at index \<open>i\<close>.  A next-track answer that found a track carries
  \<^verbatim>\<open>hasFurtherNext\<close> equal to \<open>i + 2 < N\<close>, and a previous-track answer that found a track
  carries \<^verbatim>\<open>hasNext\<close> equal to \<open>i - 1 < N - 1\<close>.
\<close>

theorem lookahead_flags:
  assumes "requestTrackList db playlistId = Some trackList"
  shows "(np_hasNext (body (handleGetNextTrack db cur playlistId)) = Some True \<longrightarrow>
            np_hasFurtherNext (body (handleGetNextTrack db cur playlistId))
              = Some (js_indexOf trackList cur + 2 < int (length trackList)))
       \<and> (np_hasPrevious (body (handleGetPreviousTrack db cur playlistId)) = Some True \<longrightarrow>
            np_hasNext (body (handleGetPreviousTrack db cur playlistId))
              = Some (js_indexOf trackList cur - 1 < int (length trackList) - 1))"
  using assms
  by (auto simp: handleGetNextTrack_def handleGetPreviousTrack_def jsonResponse_def np_none_def
      Let_def split: option.splits)

theorem lookahead_flags_witness:
  "requestTrackList demo_db None = Some [js ''t1'', js ''t2'', js ''t3'']
   \<and> np_hasNext (body (handleGetNextTrack demo_db (js ''t1'') None)) = Some True
   \<and> np_hasFurtherNext (body (handleGetNextTrack demo_db (js ''t1'') None)) = Some True
   \<and> np_hasPrevious (body (handleGetPreviousTrack demo_db (js ''t3'') None)) = Some True
   \<and> np_hasNext (body (handleGetPreviousTrack demo_db (js ''t3'') None)) = Some True"
proof -
  have a: "np_hasNext (body (handleGetNextTrack demo_db (js ''t1'') None)) = Some True"
    by (simp add: handleGetNextTrack_def demo_request_list demo_ids_differ demo_getTrack
        js_at_def jsonResponse_def np_none_def Let_def)
  have b: "np_hasPrevious (body (handleGetPreviousTrack demo_db (js ''t3'') None)) = Some True"
    by (simp add: handleGetPreviousTrack_def demo_request_list demo_ids_differ demo_getTrack
        js_at_def jsonResponse_def np_none_def Let_def)
  have i: "js_indexOf [js ''t1'', js ''t2'', js ''t3''] (js ''t1'') = 0"
    "js_indexOf [js ''t1'', js ''t2'', js ''t3''] (js ''t3'') = 2"
    by (simp_all add: demo_ids_differ Let_def)
  show ?thesis
    using a b i demo_request_list
      lookahead_flags [OF demo_request_list, of "js ''t1''"]
      lookahead_flags [OF demo_request_list, of "js ''t3''"]
    by simp
qed

text \<open>
  Claim C2.  Over a well-formed storage, let the list of a context be \<open>[a, b, c]\<close>, the
  ids distinct and each the id of a stored track.  Then the track after \<open>a\<close> is \<open>b\<close>,
  the track after \<open>b\<close> is \<open>c\<close>, there is none after \<open>c\<close>; the track before \<open>c\<close> is
  \<open>b\<close>, the track before \<open>b\<close> is \<open>a\<close>, there is none before \<open>a\<close>; and an id that
  is not in the list has no neighbour in either direction.  This holds for the
  handlers of Protocol A (\<^verbatim>\<open>handleGetNextTrack\<close>, \<^verbatim>\<open>handleGetPreviousTrack\<close>) and for
  \<^verbatim>\<open>findAdjacentTrack\<close> of Protocol B on every context other than \<^verbatim>\<open>single\<close>.
\<close>

theorem adjacency_of_three:
  assumes vs: "valid_storage db"
    and d: "distinct [a, b, c]"
    and ta: "getTrack db a = Some ta" and tb: "getTrack db b = Some tb"
    and tc: "getTrack db c = Some tc"
  shows "(requestTrackList db playlistId = Some [a, b, c] \<longrightarrow>
            handleGetNextTrack db a playlistId
              = jsonResponse (np_none\<lparr>np_hasNext := Some True, np_track := Some tb,
                                       np_hasFurtherNext := Some True\<rparr>) 200
          \<and> handleGetNextTrack db b playlistId
              = jsonResponse (np_none\<lparr>np_hasNext := Some True, np_track := Some tc,
                                       np_hasFurtherNext := Some False\<rparr>) 200
          \<and> handleGetNextTrack db c playlistId
              = jsonResponse (np_none\<lparr>np_hasNext := Some False\<rparr>) 200
          \<and> handleGetPreviousTrack db c playlistId
              = jsonResponse (np_none\<lparr>np_hasPrevious := Some True, np_track := Some tb,
                                       np_hasNext := Some True\<rparr>) 200
          \<and> handleGetPreviousTrack db b playlistId
              = jsonResponse (np_none\<lparr>np_hasPrevious := Some True, np_track := Some ta,
                                       np_hasNext := Some True\<rparr>) 200
          \<and> handleGetPreviousTrack db a playlistId
              = jsonResponse (np_none\<lparr>np_hasPrevious := Some False\<rparr>) 200
          \<and> (x \<notin> set [a, b, c] \<longrightarrow>
                handleGetNextTrack db x playlistId
                  = jsonResponse (np_none\<lparr>np_hasNext := Some False\<rparr>) 200
              \<and> handleGetPreviousTrack db x playlistId
                  = jsonResponse (np_none\<lparr>np_hasPrevious := Some False\<rparr>) 200))
       \<and> (ctx \<noteq> js ''single'' \<and> contextTrackList db ctx = Some [a, b, c] \<longrightarrow>
            findAdjacentTrack db (token_json \<lparr>trackId = a, context' = ctx\<rparr>) Next = Inr (Some tb)
          \<and> findAdjacentTrack db (token_json \<lparr>trackId = b, context' = ctx\<rparr>) Next = Inr (Some tc)
          \<and> findAdjacentTrack db (token_json \<lparr>trackId = c, context' = ctx\<rparr>) Next = Inr None
          \<and> findAdjacentTrack db (token_json \<lparr>trackId = c, context' = ctx\<rparr>) Previous
              = Inr (Some tb)
          \<and> findAdjacentTrack db (token_json \<lparr>trackId = b, context' = ctx\<rparr>) Previous
              = Inr (Some ta)
          \<and> findAdjacentTrack db (token_json \<lparr>trackId = a, context' = ctx\<rparr>) Previous = Inr None
          \<and> (x \<notin> set [a, b, c] \<longrightarrow>
                findAdjacentTrack db (token_json \<lparr>trackId = x, context' = ctx\<rparr>) Next = Inr None
              \<and> findAdjacentTrack db (token_json \<lparr>trackId = x, context' = ctx\<rparr>) Previous
                  = Inr None))"
    (is "?A \<and> ?B")
proof -
  have ne: "a \<noteq> []" "b \<noteq> []" "c \<noteq> []"
    using stored_id_nonempty [OF vs ta] stored_id_nonempty [OF vs tb]
      stored_id_nonempty [OF vs tc] by simp_all
  note ix = indexOf3 [OF d]
  have keys: "js ''context'' \<noteq> js ''trackId''" by (simp add: js_def)
  have A: ?A
    using ne ta tb tc ix
    by (simp add: handleGetNextTrack_def handleGetPreviousTrack_def js_at_def Let_def
        del: js_indexOf.simps)
  have B: ?B
    using ne ta tb tc ix keys
    by (simp add: findAdjacentTrack_def token_json_def js_at_def Let_def
        del: js_indexOf.simps)
  show ?thesis using A B by blast
qed

theorem adjacency_of_three_witness:
  "valid_storage demo_db
   \<and> handleGetNextTrack demo_db (js ''t1'') None
       = jsonResponse (np_none\<lparr>np_hasNext := Some True, np_track := Some demo_t2,
                                np_hasFurtherNext := Some True\<rparr>) 200
   \<and> handleGetNextTrack demo_db (js ''t3'') None
       = jsonResponse (np_none\<lparr>np_hasNext := Some False\<rparr>) 200
   \<and> findAdjacentTrack demo_db (token_json \<lparr>trackId = js ''t3'', context' = js ''all''\<rparr>)
       Previous = Inr (Some demo_t2)
   \<and> findAdjacentTrack demo_db (token_json \<lparr>trackId = js ''t1'', context' = js ''all''\<rparr>)
       Previous = Inr None"
proof -
  have d: "distinct [js ''t1'', js ''t2'', js ''t3'']" by (simp add: demo_ids_differ)
  have s: "js ''all'' \<noteq> js ''single''" by (simp add: js_def)
  show ?thesis
    using adjacency_of_three [OF demo_valid d demo_getTrack, of None "js ''zz''" "js ''all''"]
      demo_request_list demo_context_list s demo_valid
    by simp
qed

section \<open>Proofs: the queue lifecycle of Protocol A against the server's routes\<close>

















section \<open>Proofs: the token codec\<close>

subsection \<open>Base64\<close>

lemma hi16: "(b::nat) < 256 \<Longrightarrow> b div 16 < 16" by (simp add: less_mult_imp_div_less)
lemma hi64: "(c::nat) < 256 \<Longrightarrow> c div 64 < 4" by (simp add: less_mult_imp_div_less)
lemma dm16: "(x::nat) < 16 \<Longrightarrow> (k * 16 + x) div 16 = k \<and> (k * 16 + x) mod 16 = x" by simp
lemma dm4: "(x::nat) < 4 \<Longrightarrow> (k * 4 + x) div 4 = k \<and> (k * 4 + x) mod 4 = x" by simp
lemma octet1: "(a::nat) div 4 * 4 + (a mod 4 * 16 + b div 16) div 16 = a" if "b < 256"
  using hi16 [OF that] by (simp add: dm16)
lemma octet2: "((a::nat) mod 4 * 16 + b div 16) mod 16 * 16 + (b mod 16 * 4 + c div 64) div 4 = b"
  if "b < 256" "c < 256"
  using hi16 [OF that(1)] hi64 [OF that(2)] by (simp add: dm16 dm4)
lemma octet3: "((b::nat) mod 16 * 4 + c div 64) mod 4 * 64 + c mod 64 = c" if "c < 256"
  using hi64 [OF that] by (simp add: dm4)
lemma octet1': "(a::nat) div 4 * 4 + (a mod 4 * 16) div 16 = a"
  by simp
lemma octet2': "((a::nat) mod 4 * 16 + b div 16) mod 16 * 16 + (b mod 16 * 4) div 4 = b" if "b < 256"
  using hi16 [OF that] by (simp add: dm16)

lemma b64_val_char: "n < 64 \<Longrightarrow> b64_val (b64_char n) = Some n"
  by (auto simp: b64_val_def b64_char_def)

lemma b64_char_plain: "n < 64 \<Longrightarrow> \<not> is_ascii_whitespace (b64_char n) \<and> b64_char n \<noteq> 61"
  by (auto simp: b64_char_def is_ascii_whitespace_def)

lemma sextets_small: "list_all (\<lambda>c. c < 256) bs \<Longrightarrow> list_all (\<lambda>v. v < 64) (sextets bs)"
  by (induction bs rule: sextets.induct) auto

lemma sextets_length:
  "length (sextets bs) mod 4 = (if length bs mod 3 = 0 then 0 else if length bs mod 3 = 1 then 2 else 3)"
  by (induction bs rule: sextets.induct) (auto simp: mod_Suc)

lemma octets_sextets: "list_all (\<lambda>c. c < 256) bs \<Longrightarrow> octets (sextets bs) = bs"
proof (induction bs rule: sextets.induct)
  case 1
  show ?case by simp
next
  case (2 a)
  show ?case by (simp add: octet1')
next
  case (3 a b)
  then show ?case using hi16 [of b] by (simp add: octet1 octet2')
next
  case (4 a b c rest)
  then show ?case using hi16 [of b] hi64 [of c] by (simp add: octet1 octet2 octet3)
qed

lemma those_b64: "list_all (\<lambda>v. v < 64) vs \<Longrightarrow> those (map b64_val (map b64_char vs)) = Some vs"
  by (induction vs) (auto simp: b64_val_char)

lemma no_whitespace_b64:
  "list_all (\<lambda>v. v < 64) vs \<Longrightarrow>
   filter (\<lambda>c. \<not> is_ascii_whitespace c) (map b64_char vs @ replicate k 61)
     = map b64_char vs @ replicate k 61"
proof (induction vs)
  case Nil
  have "\<not> is_ascii_whitespace 61" by (simp add: is_ascii_whitespace_def)
  then show ?case by simp
next
  case (Cons v vs)
  then show ?case by (simp add: b64_char_plain)
qed

lemma last_b64: "list_all (\<lambda>v. v < 64) vs \<Longrightarrow> vs \<noteq> [] \<Longrightarrow> last (map b64_char vs) \<noteq> 61"
  by (induction vs) (auto simp: b64_char_plain)

lemma strip_padding_b64:
  assumes small: "list_all (\<lambda>v. v < 64) vs"
    and k: "k \<le> 2" and len: "(length vs + k) mod 4 = 0" and body: "0 < k \<longrightarrow> vs \<noteq> []"
  shows "strip_padding (map b64_char vs @ replicate k 61) = map b64_char vs"
proof -
  consider "k = 0" | "k = 1" | "k = 2" using k by linarith
  then show ?thesis
  proof cases
    case 1
    then show ?thesis using last_b64 [OF small]
      by (cases "vs = []") (simp_all add: strip_padding_def)
  next
    case 2
    then show ?thesis using last_b64 [OF small] len body
      by (simp add: strip_padding_def Let_def)
  next
    case 3
    then have r: "replicate k (61::nat) = [61, 61]" by (simp add: numeral_2_eq_2)
    have "butlast (map b64_char vs @ [61, 61]) = map b64_char vs @ [61]"
      by (simp add: butlast_append)
    then show ?thesis using len 3 unfolding r
      by (simp add: strip_padding_def Let_def)
  qed
qed

lemma pad_facts:
  "(3 - length bs mod 3) mod 3 \<le> 2"
  "(length (sextets bs) + (3 - length bs mod 3) mod 3) mod 4 = 0"
  "0 < (3 - length bs mod 3) mod 3 \<longrightarrow> sextets bs \<noteq> []"
  "length (sextets bs) mod 4 \<noteq> 1"
proof -
  have m: "length bs mod 3 = 0 \<or> length bs mod 3 = 1 \<or> length bs mod 3 = 2" by linarith
  show "(3 - length bs mod 3) mod 3 \<le> 2" by simp
  show "length (sextets bs) mod 4 \<noteq> 1" using sextets_length [of bs] by (simp split: if_splits)
  show "(length (sextets bs) + (3 - length bs mod 3) mod 3) mod 4 = 0"
    using m sextets_length [of bs] by (auto simp: mod_add_left_eq [symmetric, of "length (sextets bs)"])
  show "0 < (3 - length bs mod 3) mod 3 \<longrightarrow> sextets bs \<noteq> []"
    by (induction bs rule: sextets.induct) auto
qed

lemma atob_b64_encode:
  assumes "list_all (\<lambda>c. c < 256) bs"
  shows "atob (b64_encode bs) = Some bs"
proof -
  note s = sextets_small [OF assms]
  have "strip_padding (filter (\<lambda>c. \<not> is_ascii_whitespace c) (b64_encode bs))
          = map b64_char (sextets bs)"
    unfolding b64_encode_def no_whitespace_b64 [OF s]
    by (rule strip_padding_b64 [OF s pad_facts(1) pad_facts(2) pad_facts(3)])
  then show ?thesis using pad_facts(4) [of bs] those_b64 [OF s] octets_sextets [OF assms]
    by (simp add: atob_def Let_def)
qed

subsection \<open>JSON\<close>

lemma hex_val_digit: "n < 16 \<Longrightarrow> hex_val (hex_digit n) = Some n"
  by (auto simp: hex_val_def hex_digit_def)

lemma hex_places:
  assumes "c < 65536"
  shows "c div 4096 mod 16 * 4096 + c div 256 mod 16 * 256 + c div 16 mod 16 * 16 + c mod 16
           = (c::nat)"
proof -
  define x1 where "x1 = c div 16"
  define x2 where "x2 = x1 div 16"
  define x3 where "x3 = x2 div 16"
  have d2: "c div 256 = x2" unfolding x2_def x1_def by (simp add: div_mult2_eq [symmetric])
  have d3: "c div 4096 = x3" unfolding x3_def x2_def x1_def by (simp add: div_mult2_eq [symmetric])
  have "x3 < 16" using assms unfolding d3 [symmetric] by (simp add: less_mult_imp_div_less)
  then have m3: "x3 mod 16 = x3" by simp
  have e1: "c = x1 * 16 + c mod 16" unfolding x1_def by simp
  have e2: "x1 = x2 * 16 + x1 mod 16" unfolding x2_def by simp
  have e3: "x2 = x3 * 16 + x2 mod 16" unfolding x3_def by simp
  have "c = ((x3 * 16 + x2 mod 16) * 16 + x1 mod 16) * 16 + c mod 16"
    using e1 e2 e3 by presburger
  then show ?thesis unfolding d2 d3 m3 x1_def [symmetric] by (simp add: algebra_simps)
qed

lemma hex4_digits:
  assumes "c < 65536"
  shows "hex4 (hex_digit (c div 4096 mod 16)) (hex_digit (c div 256 mod 16))
           (hex_digit (c div 16 mod 16)) (hex_digit (c mod 16)) = Some c"
proof -
  have "c div 4096 < 16" using assms by (simp add: less_mult_imp_div_less)
  then have m: "c div 4096 mod 16 = c div 4096" by simp
  have "c div 4096 * 4096 + c div 256 mod 16 * 256 + c div 16 mod 16 * 16 + c mod 16 = c"
    using hex_places [OF assms] unfolding m .
  then show ?thesis using \<open>c div 4096 < 16\<close> by (simp add: hex4_def hex_val_digit m)
qed

lemma psb_quote: "parse_string_body (34 # rest) = Some ([], rest)"
  by (cases rest) simp_all

lemma psb_plain:
  "32 \<le> c \<Longrightarrow> c \<noteq> 34 \<Longrightarrow> c \<noteq> 92 \<Longrightarrow>
   parse_string_body (c # rest) = cons_unit c (parse_string_body rest)"
  by (cases rest) (simp_all add: cons_unit_def)

lemma psb_escape:
  "unescape e = Some u \<Longrightarrow> e \<noteq> 117 \<Longrightarrow>
   parse_string_body (92 # e # rest) = cons_unit u (parse_string_body rest)"
  by simp

lemma psb_unicode:
  assumes "c < 65536"
  shows "parse_string_body (unicode_escape c @ rest) = cons_unit c (parse_string_body rest)"
  using hex4_digits [OF assms] by (simp add: unicode_escape_def)

lemma psb_unit:
  "parse_string_body (quote_unit c @ rest) = cons_unit c (parse_string_body rest)"
proof -
  consider "c = 8" | "c = 9" | "c = 10" | "c = 12" | "c = 13" | "c = 34" | "c = 92"
    | "c < 32" "c \<notin> {8, 9, 10, 12, 13}"
    | "32 \<le> c" "c \<noteq> 34" "c \<noteq> 92"
    by fastforce
  then show ?thesis
  proof cases
    case 8
    then have "c < 65536" by simp
    then show ?thesis using 8 psb_unicode [of c rest] by (simp add: quote_unit_def)
  next
    case 9
    then show ?thesis using psb_plain [of c rest] by (simp add: quote_unit_def)
  qed (simp_all add: quote_unit_def unescape_def)
qed

lemma psb_quoted: "parse_string_body (quote_units s @ 34 # rest) = Some (s, rest)"
proof (induction s rule: quote_units.induct)
  case 1
  show ?case by (simp add: psb_quote)
next
  case (2 c)
  have "is_high_surrogate c \<or> is_low_surrogate c \<Longrightarrow> c < 65536"
    by (auto simp: is_high_surrogate_def is_low_surrogate_def)
  then show ?case
    by (auto simp: psb_unicode psb_unit psb_quote cons_unit_def)
next
  case (3 c d ds)
  show ?case
  proof (cases "is_high_surrogate c")
    case True
    then have c: "c < 65536" "32 \<le> c" "c \<noteq> 34" "c \<noteq> 92"
      by (auto simp: is_high_surrogate_def)
    show ?thesis
    proof (cases "is_low_surrogate d")
      case low: True
      then have d: "32 \<le> d" "d \<noteq> 34" "d \<noteq> 92" by (auto simp: is_low_surrogate_def)
      show ?thesis using True low "3.IH"(1) [OF True low] c d
        by (simp add: psb_plain cons_unit_def)
    next
      case False
      then show ?thesis using True "3.IH"(2) [OF True False] c
        by (simp add: psb_unicode cons_unit_def)
    qed
  next
    case False
    show ?thesis
    proof (cases "is_low_surrogate c")
      case True
      then have "c < 65536" by (auto simp: is_low_surrogate_def)
      then show ?thesis using False True "3.IH"(3) [OF False True]
        by (simp add: psb_unicode cons_unit_def)
    next
      case low: False
      then show ?thesis using False "3.IH"(4) [OF False low]
        by (simp add: psb_unit cons_unit_def)
    qed
  qed
qed

lemma not_ws: "\<not> is_json_ws 34" "\<not> is_json_ws 58" "\<not> is_json_ws 44" "\<not> is_json_ws 125"
  "\<not> is_json_ws 123"
  by (simp_all add: is_json_ws_def)

lemma parse_value_string:
  "parse_value (Suc n) (34 # quote_units s @ 34 # rest) = Parsed (JStr s, rest)"
  by (simp add: not_ws psb_quoted)

lemma parse_member_more:
  "parse_members (Suc (Suc n)) acc
     (34 # quote_units k @ 34 # 58 # 34 # quote_units v @ 34 # 44 # rest)
   = parse_members (Suc n) (obj_put acc k (JStr v)) rest"
  by (subst parse_members.simps)
     (simp add: not_ws psb_quoted parse_value_string del: parse_value.simps parse_members.simps)

lemma parse_member_last:
  "parse_members (Suc (Suc n)) acc
     (34 # quote_units k @ 34 # 58 # 34 # quote_units v @ 34 # 125 # rest)
   = Parsed (JObj (obj_put acc k (JStr v)), rest)"
  by (subst parse_members.simps)
     (simp add: not_ws psb_quoted parse_value_string del: parse_value.simps parse_members.simps)

lemma parse_value_token:
  "parse_value (Suc (Suc (Suc (Suc n)))) (JSON_stringify_token t) = Parsed (token_json t, [])"
proof -
  have keys: "js ''trackId'' \<noteq> js ''context''" by (simp add: js_def)
  have s: "JSON_stringify_token t
      = 123 # 34 # quote_units (js ''trackId'') @ 34 # 58 # 34 # quote_units (trackId t) @ 34 # 44
          # 34 # quote_units (js ''context'') @ 34 # 58 # 34 # quote_units (context' t) @ 34
          # 125 # []"
    by (simp add: JSON_stringify_token_def QuoteJSONString_def js_def)
  show ?thesis unfolding s
    by (subst parse_value.simps)
       (simp add: not_ws parse_member_more parse_member_last token_json_def keys
          del: parse_value.simps parse_members.simps)
qed

lemma JSON_parse_token: "JSON_parse (JSON_stringify_token t) = Some (token_json t)"
proof -
  have "4 \<le> 2 * length (JSON_stringify_token t) + 1"
    by (simp add: JSON_stringify_token_def QuoteJSONString_def js_def)
  then have n: "2 * length (JSON_stringify_token t) + 1
      = Suc (Suc (Suc (Suc (2 * length (JSON_stringify_token t) + 1 - 4))))"
    by linarith
  show ?thesis unfolding JSON_parse_def by (subst n) (simp add: parse_value_token del: parse_value.simps)
qed

lemma hex_digit_small: "n < 16 \<Longrightarrow> hex_digit n < 256"
  by (simp add: hex_digit_def)

lemma unicode_escape_latin1: "list_all (\<lambda>c. c < 256) (unicode_escape c)"
  by (simp add: unicode_escape_def hex_digit_small)

lemma quote_unit_latin1: "c < 256 \<Longrightarrow> list_all (\<lambda>c. c < 256) (quote_unit c)"
  by (simp add: quote_unit_def unicode_escape_latin1)

lemma quote_units_latin1: "latin1 s \<Longrightarrow> list_all (\<lambda>c. c < 256) (quote_units s)"
proof (induction s rule: quote_units.induct)
  case 1
  show ?case by simp
next
  case (2 c)
  then show ?case
    by (auto simp: latin1_def is_high_surrogate_def is_low_surrogate_def quote_unit_latin1)
next
  case (3 c d ds)
  then show ?case
    by (auto simp: latin1_def is_high_surrogate_def is_low_surrogate_def quote_unit_latin1)
qed

lemma js_latin1: "latin1 (js ''trackId'')" "latin1 (js ''context'')"
  by (simp_all add: latin1_def js_def)

lemma stringify_latin1:
  "latin1 (trackId t) \<Longrightarrow> latin1 (context' t) \<Longrightarrow>
   list_all (\<lambda>c. c < 256) (JSON_stringify_token t)"
  using js_latin1
  by (simp add: JSON_stringify_token_def QuoteJSONString_def quote_units_latin1)
     (simp add: js_def)

lemma token_roundtrip:
  assumes "latin1 (trackId t)" and "latin1 (context' t)"
  shows "encodeToken t = Some (b64_encode (JSON_stringify_token t))
       \<and> decodeToken (b64_encode (JSON_stringify_token t)) = token_json t"
  using stringify_latin1 [OF assms] atob_b64_encode [OF stringify_latin1 [OF assms]]
  by (simp add: encodeToken_def btoa_def decodeToken_def JSON_parse_token)

lemma cons_unit_SomeD: "cons_unit c p = Some (k, r) \<Longrightarrow> \<exists>k'. p = Some (k', r)"
  by (cases p) (auto simp: cons_unit_def)

lemma psb_le: "parse_string_body s = Some (k, r) \<Longrightarrow> length r \<le> length s"
proof (induction s arbitrary: k rule: parse_string_body.induct)
  case 1
  then show ?case by simp
next
  case (2 c)
  then show ?case by (simp split: if_splits)
next
  case (3 c e es)
  show ?case
  proof (cases "c = 34")
    case True
    then show ?thesis using "3.prems" by simp
  next
    case c34: False
    show ?thesis
    proof (cases "c = 92")
      case True
      show ?thesis
      proof (cases "e = 117")
        case u: True
        then obtain h1 h2 h3 h4 rest u' where es: "es = h1 # h2 # h3 # h4 # rest"
          and h: "hex4 h1 h2 h3 h4 = Some u'"
          and p: "cons_unit u' (parse_string_body rest) = Some (k, r)"
          using "3.prems" c34 True
          by (auto split: list.splits option.splits)
        obtain k' where k': "parse_string_body rest = Some (k', r)"
          using cons_unit_SomeD [OF p] by blast
        have "length r \<le> length rest"
          by (rule "3.IH"(1) [OF c34 True u es refl refl refl h k'])
        then show ?thesis using es by simp
      next
        case False
        then obtain u' where un: "unescape e = Some u'"
          and p: "cons_unit u' (parse_string_body es) = Some (k, r)"
          using "3.prems" c34 True by (auto split: option.splits)
        obtain k' where "parse_string_body es = Some (k', r)"
          using cons_unit_SomeD [OF p] by blast
        then have "length r \<le> length es"
          using "3.IH"(2) [OF c34 True False un] by blast
        then show ?thesis by simp
      qed
    next
      case False
      then have lo: "\<not> c < 32" and p: "cons_unit c (parse_string_body (e # es)) = Some (k, r)"
        using "3.prems" c34 by (auto split: if_splits)
      obtain k' where "parse_string_body (e # es) = Some (k', r)"
        using cons_unit_SomeD [OF p] by blast
      then have "length r \<le> length (e # es)"
        using "3.IH"(3) [OF c34 False lo] by blast
      then show ?thesis by simp
    qed
  qed
qed

lemma parse_digits_le: "parse_digits s = Some (ds, r) \<Longrightarrow> length r \<le> length s"
  by (auto simp: parse_digits_def Let_def length_dropWhile_le split: if_splits)

lemma parse_int_le: "parse_int s = Some (ds, r) \<Longrightarrow> length r \<le> length s"
  using parse_digits_le [of s ds r]
  by (auto simp: parse_int_def split: list.splits if_splits)

lemma parse_frac_le: "parse_frac s = Some (ds, r) \<Longrightarrow> length r \<le> length s"
  by (auto simp: parse_frac_def split: list.splits if_splits option.splits
      dest!: parse_digits_le)

lemma parse_sign_le: "length (snd (parse_sign s)) \<le> length s"
  by (auto simp: parse_sign_def split: list.splits)

lemma parse_exp_le: "parse_exp s = Some (ds, r) \<Longrightarrow> length r \<le> length s"
proof (cases s)
  case Nil
  then show "parse_exp s = Some (ds, r) \<Longrightarrow> ?thesis" by (simp add: parse_exp_def)
next
  case (Cons c cs)
  assume a: "parse_exp s = Some (ds, r)"
  show ?thesis
  proof (cases "c = 101 \<or> c = 69")
    case True
    then obtain d where "parse_digits (snd (parse_sign cs)) = Some (d, r)"
      using a Cons by (auto simp: parse_exp_def split: option.splits)
    then have "length r \<le> length (snd (parse_sign cs))" by (rule parse_digits_le)
    then show ?thesis using parse_sign_le [of cs] Cons by simp
  next
    case False
    then show ?thesis using a Cons by (auto simp: parse_exp_def)
  qed
qed

lemma parse_number_le: "parse_number s = Some (lit, r) \<Longrightarrow> length r \<le> length s"
proof -
  assume a: "parse_number s = Some (lit, r)"
  define sg where "sg = (case s of [] \<Rightarrow> [] | c # cs \<Rightarrow> if c = 45 then [45::nat] else [])"
  obtain i s2 f s3 e where
    i: "parse_int (drop (length sg) s) = Some (i, s2)" and f: "parse_frac s2 = Some (f, s3)"
    and e: "parse_exp s3 = Some (e, r)"
    using a unfolding parse_number_def sg_def [symmetric]
    by (auto simp: Let_def split: option.splits)
  have "length s2 \<le> length s" using parse_int_le [OF i] by simp
  then show ?thesis using parse_frac_le [OF f] parse_exp_le [OF e] by linarith
qed

lemma dropWhile_Cons_le: "dropWhile P xs = c # cs \<Longrightarrow> Suc (length cs) \<le> length xs"
  using length_dropWhile_le [of P xs] by simp

lemma fuel_enough:
  "(2 * length s < n \<longrightarrow>
      parse_value n s \<noteq> NoFuel
      \<and> (\<forall>v r. parse_value n s = Parsed (v, r) \<longrightarrow> length r \<le> length s))
   \<and> (2 * length s + 1 < n \<longrightarrow>
      parse_elements n acc s \<noteq> NoFuel
      \<and> (\<forall>v r. parse_elements n acc s = Parsed (v, r) \<longrightarrow> length r \<le> length s))
   \<and> (2 * length s + 1 < n \<longrightarrow>
      parse_members n kvs s \<noteq> NoFuel
      \<and> (\<forall>v r. parse_members n kvs s = Parsed (v, r) \<longrightarrow> length r \<le> length s))"
proof (induction n arbitrary: s acc kvs)
  case 0
  show ?case by simp
next
  case (Suc n)
  note [simp del] = dropWhile_eq_Nil_conv
  have V: "parse_value (Suc n) s \<noteq> NoFuel
      \<and> (\<forall>v r. parse_value (Suc n) s = Parsed (v, r) \<longrightarrow> length r \<le> length s)"
    if b: "2 * length s < Suc n"
  proof (cases "dropWhile is_json_ws s")
    case Nil
    then show ?thesis by simp
  next
    case (Cons c cs)
    note len = dropWhile_Cons_le [OF Cons]
    consider "c = 34" | "c = 123" | "c = 91" | "c \<noteq> 34" "c \<noteq> 123" "c \<noteq> 91" by blast
    then show ?thesis
    proof cases
      case 1
      then show ?thesis using Cons len
        by (auto split: option.splits dest!: psb_le)
    next
      case 2
      show ?thesis
      proof (cases "dropWhile is_json_ws cs")
        case Nil
        then show ?thesis using Cons 2 by simp
      next
        case inner: (Cons d ds)
        note len2 = dropWhile_Cons_le [OF inner]
        have "2 * length (d # ds) + 1 < n" using len len2 b by simp
        then have "parse_members n [] (d # ds) \<noteq> NoFuel
          \<and> (\<forall>v r. parse_members n [] (d # ds) = Parsed (v, r) \<longrightarrow> length r \<le> length (d # ds))"
          using Suc.IH [of "d # ds" acc "[]"] by blast
        then show ?thesis using Cons 2 inner len len2 by auto
      qed
    next
      case 3
      show ?thesis
      proof (cases "dropWhile is_json_ws cs")
        case Nil
        then show ?thesis using Cons 3 by simp
      next
        case inner: (Cons d ds)
        note len2 = dropWhile_Cons_le [OF inner]
        have "2 * length (d # ds) + 1 < n" using len len2 b by simp
        then have "parse_elements n [] (d # ds) \<noteq> NoFuel
          \<and> (\<forall>v r. parse_elements n [] (d # ds) = Parsed (v, r) \<longrightarrow> length r \<le> length (d # ds))"
          using Suc.IH [of "d # ds" "[]" kvs] by blast
        then show ?thesis using Cons 3 inner len len2 by auto
      qed
    next
      case 4
      then show ?thesis using Cons len
        by (auto split: option.splits dest!: parse_number_le)
    qed
  qed
  have E: "parse_elements (Suc n) acc s \<noteq> NoFuel
      \<and> (\<forall>v r. parse_elements (Suc n) acc s = Parsed (v, r) \<longrightarrow> length r \<le> length s)"
    if b: "2 * length s + 1 < Suc n"
  proof -
    have v: "parse_value n s \<noteq> NoFuel
      \<and> (\<forall>v r. parse_value n s = Parsed (v, r) \<longrightarrow> length r \<le> length s)"
      using Suc.IH [of s acc kvs] b by simp
    show ?thesis
    proof (cases "parse_value n s")
      case NoFuel
      then show ?thesis using v by simp
    next
      case Rejected
      then show ?thesis by simp
    next
      case (Parsed p)
      obtain v0 r0 where p: "p = (v0, r0)" by (cases p)
      have r0: "length r0 \<le> length s" using v Parsed p by simp
      show ?thesis
      proof (cases "dropWhile is_json_ws r0")
        case Nil
        then show ?thesis using Parsed p by simp
      next
        case (Cons c cs)
        note len = dropWhile_Cons_le [OF Cons]
        have "2 * length cs + 1 < n" using len r0 b by simp
        then have "parse_elements n (acc @ [v0]) cs \<noteq> NoFuel
          \<and> (\<forall>v r. parse_elements n (acc @ [v0]) cs = Parsed (v, r) \<longrightarrow> length r \<le> length cs)"
          using Suc.IH [of cs "acc @ [v0]" kvs] by blast
        then show ?thesis using Parsed p Cons len r0 by auto
      qed
    qed
  qed
  have M: "parse_members (Suc n) kvs s \<noteq> NoFuel
      \<and> (\<forall>v r. parse_members (Suc n) kvs s = Parsed (v, r) \<longrightarrow> length r \<le> length s)"
    if b: "2 * length s + 1 < Suc n"
  proof (cases "dropWhile is_json_ws s")
    case Nil
    then show ?thesis by simp
  next
    case (Cons c cs)
    note len = dropWhile_Cons_le [OF Cons]
    show ?thesis
    proof (cases "c = 34")
      case False
      then show ?thesis using Cons by simp
    next
      case True
      show ?thesis
      proof (cases "parse_string_body cs")
        case None
        then show ?thesis using Cons True by simp
      next
        case (Some q)
        obtain k r1 where q: "q = (k, r1)" by (cases q)
        have r1: "length r1 \<le> length cs" using psb_le [of cs k r1] Some q by simp
        show ?thesis
        proof (cases "dropWhile is_json_ws r1")
          case Nil
          then show ?thesis using Cons True Some q by simp
        next
          case colon: (Cons d ds)
          note len2 = dropWhile_Cons_le [OF colon]
          show ?thesis
          proof (cases "d = 58")
            case False
            then show ?thesis using Cons True Some q colon by simp
          next
            case d58: True
            have v: "parse_value n ds \<noteq> NoFuel
              \<and> (\<forall>v r. parse_value n ds = Parsed (v, r) \<longrightarrow> length r \<le> length ds)"
              using Suc.IH [of ds acc kvs] b len len2 r1 by simp
            show ?thesis
            proof (cases "parse_value n ds")
              case NoFuel
              then show ?thesis using v by simp
            next
              case Rejected
              then show ?thesis using Cons True Some q colon d58 by simp
            next
              case (Parsed p)
              obtain v0 r2 where p: "p = (v0, r2)" by (cases p)
              have r2: "length r2 \<le> length ds" using v Parsed p by simp
              show ?thesis
              proof (cases "dropWhile is_json_ws r2")
                case Nil
                then show ?thesis using Cons True Some q colon d58 Parsed p by simp
              next
                case after: (Cons e es)
                note len3 = dropWhile_Cons_le [OF after]
                have "2 * length es + 1 < n" using len len2 len3 r1 r2 b by simp
                then have "parse_members n (obj_put kvs k v0) es \<noteq> NoFuel
                  \<and> (\<forall>v r. parse_members n (obj_put kvs k v0) es = Parsed (v, r)
                        \<longrightarrow> length r \<le> length es)"
                  using Suc.IH [of es acc "obj_put kvs k v0"] by blast
                then show ?thesis
                  using Cons True Some q colon d58 Parsed p after len len2 len3 r1 r2 by auto
              qed
            qed
          qed
        qed
      qed
    qed
  qed
  show ?case using V E M by blast
qed

lemma JSON_parse_total: "parse_value (2 * length s + 1) s \<noteq> NoFuel"
  using fuel_enough [of s "2 * length s + 1" "[]" "[]"] by simp

subsection \<open>Round trip and inputs that are not tokens\<close>

lemma token_roundtrip_encoded:
  assumes "encodeToken t = Some enc"
  shows "decodeToken enc = token_json t"
proof -
  have l: "list_all (\<lambda>c. c < 256) (JSON_stringify_token t)"
    and e: "enc = b64_encode (JSON_stringify_token t)"
    using assms by (auto simp: encodeToken_def btoa_def split: if_splits)
  show ?thesis unfolding e using atob_b64_encode [OF l]
    by (simp add: decodeToken_def JSON_parse_token)
qed

lemma atob_rejects_bang: "atob (js ''!'') = None"
  by (simp add: atob_def js_def strip_padding_def is_ascii_whitespace_def b64_val_def Let_def)

lemma atob_empty_object: "atob (js ''e30='') = Some (js ''{}'')"
  by (simp add: atob_def js_def strip_padding_def is_ascii_whitespace_def b64_val_def Let_def)

lemma parse_empty_object: "JSON_parse (js ''{}'') = Some (JObj [])"
  by (simp add: JSON_parse_def js_def is_json_ws_def eval_nat_numeral)

lemma decode_empty_object: "decodeToken (js ''e30='') = JObj []"
  by (simp add: decodeToken_def atob_empty_object parse_empty_object)

lemma nearly_type: "request_type (nearlyFinished x) = js ''AudioPlayer.PlaybackNearlyFinished''"
  "request_token (nearlyFinished x) = x"
  by (simp_all add: nearlyFinished_def)

text \<open>
  Claim C1.  The claim does not hold of the code at the input \<^verbatim>\<open>e30=\<close>, the base64
  text of \<^verbatim>\<open>{}\<close>.  The input is not the encoding of a token, and \<^verbatim>\<open>decodeToken\<close>
  returns the empty object for it, which is not \<^verbatim>\<open>null\<close> and has neither a
  \<^verbatim>\<open>trackId\<close> nor a \<^verbatim>\<open>context\<close>: both calls succeed, and what \<^verbatim>\<open>JSON.parse\<close> returns
  is cast to \<^verbatim>\<open>PlaybackToken\<close> without a check.  The near-end-of-track handler, which
  tests the result against \<^verbatim>\<open>null\<close> only, then raises a TypeError on the value.
\<close>

theorem decodeToken_unchecked:
  "atob (js ''e30='') = Some (js ''{}'')
   \<and> JSON_parse (js ''{}'') = Some (JObj [])
   \<and> decodeToken (js ''e30='') = JObj []
   \<and> decodeToken (js ''e30='') \<noteq> JNull
   \<and> js_get (decodeToken (js ''e30='')) (js ''trackId'') = None
   \<and> js_get (decodeToken (js ''e30='')) (js ''context'') = None
   \<and> handleAudioPlayerEvent db (nearlyFinished (Some (js ''e30=''))) urls = Inl TypeError"
proof -
  have ne: "js ''e30='' \<noteq> []" by (simp add: js_def)
  have "handleAudioPlayerEvent db (nearlyFinished (Some (js ''e30=''))) urls = Inl TypeError"
    using ne
    by (simp add: handleAudioPlayerEvent_def nearly_type decode_empty_object
        findAdjacentTrack_def Let_def)
  then show ?thesis
    by (simp add: atob_empty_object parse_empty_object decode_empty_object)
qed

section \<open>Proofs: the directive handlers of Protocol B\<close>

lemma adjacent_is_stored:
  "findAdjacentTrack db token direction = Inr (Some t) \<Longrightarrow> \<exists>i. getTrack db i = Some t"
  by (auto simp: findAdjacentTrack_def Let_def
      split: option.splits json.splits if_splits)

lemma adjacent_has_context:
  "findAdjacentTrack db token direction = Inr x
   \<Longrightarrow> \<exists>ctx. js_get token (js ''context'') = Some (JStr ctx)"
  by (auto simp: findAdjacentTrack_def split: option.splits json.splits)

lemma property_of_truthy: "js_get token k = Some v \<Longrightarrow> \<not> js_falsy token"
  by (cases token) simp_all

lemma token_json_context: "js_get (token_json tok) (js ''context'') = Some (JStr (context' tok))"
  by (simp add: token_json_def js_def)

lemma nearly_routed:
  "js_startsWith (request_type (nearlyFinished x)) (js ''AudioPlayer.'')"
  by (simp add: nearlyFinished_def js_startsWith_def js_def)

lemma latin1_literals:
  "latin1 (js ''all'')" "latin1 (js ''single'')"
  "latin1 x \<Longrightarrow> latin1 (js ''artist::'' @ x)" "latin1 x \<Longrightarrow> latin1 (js ''playlist::'' @ x)"
  by (simp_all add: latin1_def js_def)

lemma play_response:
  assumes "latin1 (trackId tk)" and "latin1 (context' tk)" and "speech \<noteq> []"
  shows "\<exists>enc. buildPlayResponse track (mp3 urls (t_id track)) (art urls (t_id track)) tk
                 REPLACE_ALL 0 None (Some speech)
               = Inr (PlayResponse (playOf urls track REPLACE_ALL enc None) (Some speech))
             \<and> decodeToken enc = token_json tk"
  using token_roundtrip [OF assms(1) assms(2)] assms(3)
  by (simp add: buildPlayResponse_def playOf_def)

lemma msgs_nonempty:
  "x @ msg_play \<noteq> []" "x @ msg_artist_play \<noteq> []" "msg_playlist @ x @ msg_play \<noteq> []"
  by (simp_all add: msg_play_def msg_artist_play_def msg_playlist_def)

lemma sextets_nonempty: "bs \<noteq> [] \<Longrightarrow> sextets bs \<noteq> []"
  by (induction bs rule: sextets.induct) simp_all

lemma encoded_nonempty: "b64_encode (JSON_stringify_token t) \<noteq> []"
proof -
  have "JSON_stringify_token t \<noteq> []" by (simp add: JSON_stringify_token_def js_def)
  then show ?thesis using sextets_nonempty by (simp add: b64_encode_def)
qed

lemma demo_adjacent:
  "findAdjacentTrack demo_db (token_json \<lparr>trackId = js ''t1'', context' = js ''all''\<rparr>) Next
     = Inr (Some demo_t2)"
  "findAdjacentTrack demo_db (token_json \<lparr>trackId = js ''t3'', context' = js ''all''\<rparr>) Next
     = Inr None"
proof -
  have keys: "js ''context'' \<noteq> js ''trackId''" "js ''all'' \<noteq> js ''single''"
    by (simp_all add: js_def)
  show "findAdjacentTrack demo_db (token_json \<lparr>trackId = js ''t1'', context' = js ''all''\<rparr>)
          Next = Inr (Some demo_t2)"
    using keys
    by (simp add: findAdjacentTrack_def token_json_def demo_context_list demo_ids_differ
        demo_getTrack js_at_def Let_def)
  show "findAdjacentTrack demo_db (token_json \<lparr>trackId = js ''t3'', context' = js ''all''\<rparr>)
          Next = Inr None"
    using keys
    by (simp add: findAdjacentTrack_def token_json_def demo_context_list demo_ids_differ
        demo_getTrack js_at_def Let_def)
qed

lemma atob_forged:
  "atob (js ''eyJ0cmFja0lkIjoidDEiLCJjb250ZXh0IjoiXHUzMDQyIn0='')
     = Some [123, 34, 116, 114, 97, 99, 107, 73, 100, 34, 58, 34, 116, 49, 34, 44, 34, 99, 111,
             110, 116, 101, 120, 116, 34, 58, 34, 92, 117, 51, 48, 52, 50, 34, 125]"
  by (simp add: atob_def js_def strip_padding_def is_ascii_whitespace_def b64_val_def Let_def)

lemma parse_value_forged:
  "parse_value (Suc (Suc (Suc (Suc n))))
     [123, 34, 116, 114, 97, 99, 107, 73, 100, 34, 58, 34, 116, 49, 34, 44, 34, 99, 111,
      110, 116, 101, 120, 116, 34, 58, 34, 92, 117, 51, 48, 52, 50, 34, 125]
     = Parsed (JObj [(js ''trackId'', JStr (js ''t1'')), (js ''context'', JStr [12354])], [])"
  by (simp add: is_json_ws_def cons_unit_def hex4_def hex_val_def is_digit_def js_def)

lemma parse_forged:
  "JSON_parse [123, 34, 116, 114, 97, 99, 107, 73, 100, 34, 58, 34, 116, 49, 34, 44, 34, 99, 111,
               110, 116, 101, 120, 116, 34, 58, 34, 92, 117, 51, 48, 52, 50, 34, 125]
     = Some (JObj [(js ''trackId'', JStr (js ''t1'')), (js ''context'', JStr [12354])])"
proof -
  have e: "(71::nat) = Suc (Suc (Suc (Suc 67)))" by simp
  have "parse_value 71
     [123, 34, 116, 114, 97, 99, 107, 73, 100, 34, 58, 34, 116, 49, 34, 44, 34, 99, 111,
      110, 116, 101, 120, 116, 34, 58, 34, 92, 117, 51, 48, 52, 50, 34, 125]
     = Parsed (JObj [(js ''trackId'', JStr (js ''t1'')), (js ''context'', JStr [12354])], [])"
    by (subst e) (rule parse_value_forged)
  then show ?thesis by (simp add: JSON_parse_def del: parse_value.simps)
qed

lemma decode_forged:
  "decodeToken demo_forged
     = JObj [(js ''trackId'', JStr (js ''t1'')), (js ''context'', JStr [12354])]"
  by (simp add: decodeToken_def demo_forged_def atob_forged parse_forged)

lemma forged_nonempty: "demo_forged \<noteq> []"
  by (simp add: demo_forged_def js_def)

lemma forged_adjacent:
  "findAdjacentTrack demo_db (decodeToken demo_forged) Next = Inr (Some demo_t2)"
  "js_get (decodeToken demo_forged) (js ''context'') = Some (JStr [12354])"
proof -
  have k: "js ''context'' \<noteq> js ''trackId''" "[12354] \<noteq> js ''single''"
    "\<not> js_startsWith [12354] (js ''playlist::'')" "\<not> js_startsWith [12354] (js ''artist::'')"
    by (simp_all add: js_def js_startsWith_def)
  show "js_get (decodeToken demo_forged) (js ''context'') = Some (JStr [12354])"
    using k by (simp add: decode_forged)
  show "findAdjacentTrack demo_db (decodeToken demo_forged) Next = Inr (Some demo_t2)"
    using k
    by (simp add: decode_forged findAdjacentTrack_def contextTrackList_def demo_getTrackIds
        demo_ids_differ demo_getTrack js_at_def Let_def)
qed

lemma forged_not_encodable:
  "encodeToken \<lparr>trackId = t_id demo_t2, context' = [12354]\<rparr> = None"
  by (simp add: encodeToken_def btoa_def JSON_stringify_token_def QuoteJSONString_def
      quote_unit_def is_high_surrogate_def is_low_surrogate_def)

lemma demo_token_nonempty: "demo_token i \<noteq> []"
  by (simp add: demo_token_def encoded_nonempty)

lemma demo_token_decodes:
  "decodeToken (demo_token ''t1'') = token_json \<lparr>trackId = js ''t1'', context' = js ''all''\<rparr>"
  "decodeToken (demo_token ''t2'') = token_json \<lparr>trackId = js ''t2'', context' = js ''all''\<rparr>"
  "decodeToken (demo_token ''t3'') = token_json \<lparr>trackId = js ''t3'', context' = js ''all''\<rparr>"
  "encodeToken \<lparr>trackId = t_id demo_t2, context' = js ''all''\<rparr> = Some (demo_token ''t2'')"
proof -
  have l: "latin1 (js ''t1'')" "latin1 (js ''t2'')" "latin1 (js ''t3'')" "latin1 (js ''all'')"
    by (simp_all add: latin1_def js_def)
  show "decodeToken (demo_token ''t1'')
          = token_json \<lparr>trackId = js ''t1'', context' = js ''all''\<rparr>"
    using token_roundtrip [of "\<lparr>trackId = js ''t1'', context' = js ''all''\<rparr>"] l
    by (simp add: demo_token_def)
  show "decodeToken (demo_token ''t2'')
          = token_json \<lparr>trackId = js ''t2'', context' = js ''all''\<rparr>"
    using token_roundtrip [of "\<lparr>trackId = js ''t2'', context' = js ''all''\<rparr>"] l
    by (simp add: demo_token_def)
  show "decodeToken (demo_token ''t3'')
          = token_json \<lparr>trackId = js ''t3'', context' = js ''all''\<rparr>"
    using token_roundtrip [of "\<lparr>trackId = js ''t3'', context' = js ''all''\<rparr>"] l
    by (simp add: demo_token_def)
  show "encodeToken \<lparr>trackId = t_id demo_t2, context' = js ''all''\<rparr> = Some (demo_token ''t2'')"
    using token_roundtrip [of "\<lparr>trackId = js ''t2'', context' = js ''all''\<rparr>"] l
    by (simp add: demo_token_def demo_ids)
qed

lemma nearly_handler:
  "handleAudioPlayerEvent db (nearlyFinished tok) urls =
     (case tok of
        None \<Rightarrow> Inr EmptyResponse
      | Some raw \<Rightarrow>
          if raw = [] \<or> js_falsy (decodeToken raw) then Inr EmptyResponse
          else
            (case findAdjacentTrack db (decodeToken raw) Next of
               Inl e \<Rightarrow> Inl e
             | Inr None \<Rightarrow> Inr EmptyResponse
             | Inr (Some nextTrack) \<Rightarrow>
                 (case js_get (decodeToken raw) (js ''context'') of
                    Some (JStr ctx) \<Rightarrow>
                      buildPlayResponse nextTrack (mp3 urls (t_id nextTrack))
                        (art urls (t_id nextTrack))
                        \<lparr>trackId = t_id nextTrack, context' = ctx\<rparr> ENQUEUE 0 (Some raw) None
                  | _ \<Rightarrow> Inl TypeError)))"
  by (simp add: handleAudioPlayerEvent_def nearly_type Let_def split: option.splits)

lemma nearly_route:
  "handleAlexaRoute db (nearlyFinished tok) urls =
     Some (case handleAudioPlayerEvent db (nearlyFinished tok) urls of
             Inl err \<Rightarrow> EmptyResponse | Inr result \<Rightarrow> result)"
  by (simp add: handleAlexaRoute_def nearly_routed split: sum.splits)

lemma enqueue_response:
  assumes "raw \<noteq> []" and "encodeToken tk = Some enc"
  shows "buildPlayResponse track (mp3 urls (t_id track)) (art urls (t_id track)) tk
           ENQUEUE 0 (Some raw) None
         = Inr (PlayResponse (playOf urls track ENQUEUE enc (Some raw)) None)"
  using assms by (simp add: buildPlayResponse_def playOf_def)

text \<open>
  Claim C7.  As the code has it, over a well-formed storage.  Take the near-end-of-track
  event with the token \<open>tok\<close> of its payload.  When the token is a non-empty text
  \<open>raw\<close>, the value \<open>raw\<close> decodes to has a string context made of code units below
  256, and \<^verbatim>\<open>findAdjacentTrack\<close> finds a next track for it, then the handler returns and
  the route sends a Play directive for the next track at offset 0 with the behaviour
  ENQUEUE, whose expected previous token is \<open>raw\<close> and whose new token decodes to the
  next track's id and the same context.  When the event carries no token or an empty
  one, when the token decodes to \<^verbatim>\<open>null\<close>, and when there is no next track, the handler
  returns and the route sends the empty response.  When the token decodes to a value
  without a string context, the route sends the empty response.
\<close>

theorem nearly_finished_enqueues:
  assumes vs: "valid_storage db"
  shows "(\<forall>raw nextTrack ctx.
            tok = Some raw \<and> raw \<noteq> []
            \<and> findAdjacentTrack db (decodeToken raw) Next = Inr (Some nextTrack)
            \<and> js_get (decodeToken raw) (js ''context'') = Some (JStr ctx)
            \<and> latin1 ctx \<longrightarrow>
              (\<exists>enc. handleAudioPlayerEvent db (nearlyFinished tok) urls
                       = Inr (PlayResponse (playOf urls nextTrack ENQUEUE enc (Some raw)) None)
                   \<and> handleAlexaRoute db (nearlyFinished tok) urls
                       = Some (PlayResponse (playOf urls nextTrack ENQUEUE enc (Some raw)) None)
                   \<and> decodeToken enc
                       = token_json \<lparr>trackId = t_id nextTrack, context' = ctx\<rparr>))
       \<and> (tok = None \<or> tok = Some []
            \<or> (\<exists>raw. tok = Some raw
                  \<and> (decodeToken raw = JNull
                      \<or> findAdjacentTrack db (decodeToken raw) Next = Inr None)) \<longrightarrow>
            handleAudioPlayerEvent db (nearlyFinished tok) urls = Inr EmptyResponse
            \<and> handleAlexaRoute db (nearlyFinished tok) urls = Some EmptyResponse)
       \<and> ((\<exists>raw. tok = Some raw
                \<and> (\<nexists>ctx. js_get (decodeToken raw) (js ''context'') = Some (JStr ctx))) \<longrightarrow>
            handleAlexaRoute db (nearlyFinished tok) urls = Some EmptyResponse)"
proof -
  have play: "\<forall>raw nextTrack ctx.
            tok = Some raw \<and> raw \<noteq> []
            \<and> findAdjacentTrack db (decodeToken raw) Next = Inr (Some nextTrack)
            \<and> js_get (decodeToken raw) (js ''context'') = Some (JStr ctx)
            \<and> latin1 ctx \<longrightarrow>
              (\<exists>enc. handleAudioPlayerEvent db (nearlyFinished tok) urls
                       = Inr (PlayResponse (playOf urls nextTrack ENQUEUE enc (Some raw)) None)
                   \<and> handleAlexaRoute db (nearlyFinished tok) urls
                       = Some (PlayResponse (playOf urls nextTrack ENQUEUE enc (Some raw)) None)
                   \<and> decodeToken enc
                       = token_json \<lparr>trackId = t_id nextTrack, context' = ctx\<rparr>)"
  proof (intro allI impI, elim conjE)
    fix raw nextTrack ctx
    assume t: "tok = Some raw" and ne: "raw \<noteq> []"
      and adj: "findAdjacentTrack db (decodeToken raw) Next = Inr (Some nextTrack)"
      and c: "js_get (decodeToken raw) (js ''context'') = Some (JStr ctx)"
      and l: "latin1 ctx"
    obtain i where "getTrack db i = Some nextTrack" using adjacent_is_stored [OF adj] by blast
    then have "latin1 (t_id nextTrack)"
      using stored_id_nonempty [OF vs] getTrack_SomeD by blast
    then obtain enc where e: "encodeToken \<lparr>trackId = t_id nextTrack, context' = ctx\<rparr> = Some enc"
      using token_roundtrip [of "\<lparr>trackId = t_id nextTrack, context' = ctx\<rparr>"] l by simp
    have truthy: "\<not> js_falsy (decodeToken raw)" using property_of_truthy [OF c] .
    have h: "handleAudioPlayerEvent db (nearlyFinished tok) urls
                = Inr (PlayResponse (playOf urls nextTrack ENQUEUE enc (Some raw)) None)"
      using t ne truthy adj c enqueue_response [OF ne e]
      by (simp add: nearly_handler)
    then have "handleAudioPlayerEvent db (nearlyFinished tok) urls
                = Inr (PlayResponse (playOf urls nextTrack ENQUEUE enc (Some raw)) None)
            \<and> handleAlexaRoute db (nearlyFinished tok) urls
                = Some (PlayResponse (playOf urls nextTrack ENQUEUE enc (Some raw)) None)
            \<and> decodeToken enc = token_json \<lparr>trackId = t_id nextTrack, context' = ctx\<rparr>"
      using token_roundtrip_encoded [OF e] by (simp add: nearly_route)
    then show "\<exists>enc. handleAudioPlayerEvent db (nearlyFinished tok) urls
                       = Inr (PlayResponse (playOf urls nextTrack ENQUEUE enc (Some raw)) None)
                   \<and> handleAlexaRoute db (nearlyFinished tok) urls
                       = Some (PlayResponse (playOf urls nextTrack ENQUEUE enc (Some raw)) None)
                   \<and> decodeToken enc
                       = token_json \<lparr>trackId = t_id nextTrack, context' = ctx\<rparr>"
      by blast
  qed
  have quiet: "tok = None \<or> tok = Some []
            \<or> (\<exists>raw. tok = Some raw
                  \<and> (decodeToken raw = JNull
                      \<or> findAdjacentTrack db (decodeToken raw) Next = Inr None)) \<longrightarrow>
            handleAudioPlayerEvent db (nearlyFinished tok) urls = Inr EmptyResponse
            \<and> handleAlexaRoute db (nearlyFinished tok) urls = Some EmptyResponse"
    by (auto simp: nearly_route nearly_handler)
  have invalid: "(\<exists>raw. tok = Some raw
                \<and> (\<nexists>ctx. js_get (decodeToken raw) (js ''context'') = Some (JStr ctx))) \<longrightarrow>
            handleAlexaRoute db (nearlyFinished tok) urls = Some EmptyResponse"
  proof (intro impI, elim exE conjE)
    fix raw
    assume t: "tok = Some raw"
      and no: "\<nexists>ctx. js_get (decodeToken raw) (js ''context'') = Some (JStr ctx)"
    have "\<exists>e. findAdjacentTrack db (decodeToken raw) Next = Inl e"
      using adjacent_has_context [of db "decodeToken raw" Next] no
      by (cases "findAdjacentTrack db (decodeToken raw) Next") auto
    then show "handleAlexaRoute db (nearlyFinished tok) urls = Some EmptyResponse"
      using t by (auto simp: nearly_route nearly_handler)
  qed
  show ?thesis by (intro conjI) (fact play quiet invalid)+
qed

theorem nearly_finished_enqueues_witness:
  "valid_storage demo_db
   \<and> demo_token ''t1'' \<noteq> []
   \<and> findAdjacentTrack demo_db (decodeToken (demo_token ''t1'')) Next = Inr (Some demo_t2)
   \<and> js_get (decodeToken (demo_token ''t1'')) (js ''context'') = Some (JStr (js ''all''))
   \<and> latin1 (js ''all'')
   \<and> (\<exists>enc. handleAudioPlayerEvent demo_db (nearlyFinished (Some (demo_token ''t1''))) demo_urls
              = Inr (PlayResponse
                       (playOf demo_urls demo_t2 ENQUEUE enc (Some (demo_token ''t1''))) None)
          \<and> handleAlexaRoute demo_db (nearlyFinished (Some (demo_token ''t1''))) demo_urls
              = Some (PlayResponse
                        (playOf demo_urls demo_t2 ENQUEUE enc (Some (demo_token ''t1''))) None)
          \<and> decodeToken enc = token_json \<lparr>trackId = js ''t2'', context' = js ''all''\<rparr>)
   \<and> findAdjacentTrack demo_db (decodeToken (demo_token ''t3'')) Next = Inr None
   \<and> handleAudioPlayerEvent demo_db (nearlyFinished (Some (demo_token ''t3''))) demo_urls
       = Inr EmptyResponse
   \<and> decodeToken (js ''!'') = JNull
   \<and> handleAudioPlayerEvent demo_db (nearlyFinished (Some (js ''!''))) demo_urls
       = Inr EmptyResponse
   \<and> handleAudioPlayerEvent demo_db (nearlyFinished None) demo_urls = Inr EmptyResponse
   \<and> handleAlexaRoute demo_db (nearlyFinished None) demo_urls = Some EmptyResponse
   \<and> decodeToken (js ''e30='') = JObj []
   \<and> (\<nexists>ctx. js_get (decodeToken (js ''e30='')) (js ''context'') = Some (JStr ctx))
   \<and> handleAlexaRoute demo_db (nearlyFinished (Some (js ''e30=''))) demo_urls
       = Some EmptyResponse"
proof -
  note n1 = nearly_finished_enqueues [OF demo_valid, of "Some (demo_token ''t1'')" demo_urls]
  note n3 = nearly_finished_enqueues [OF demo_valid, of "Some (demo_token ''t3'')" demo_urls]
  note nb = nearly_finished_enqueues [OF demo_valid, of "Some (js ''!'')" demo_urls]
  note nn = nearly_finished_enqueues [OF demo_valid, of None demo_urls]
  note ne = nearly_finished_enqueues [OF demo_valid, of "Some (js ''e30='')" demo_urls]
  have a1: "findAdjacentTrack demo_db (decodeToken (demo_token ''t1'')) Next
              = Inr (Some demo_t2)"
    and a3: "findAdjacentTrack demo_db (decodeToken (demo_token ''t3'')) Next = Inr None"
    by (simp_all add: demo_token_decodes demo_adjacent)
  have c1: "js_get (decodeToken (demo_token ''t1'')) (js ''context'') = Some (JStr (js ''all''))"
    by (simp add: demo_token_decodes token_json_context)
  have bang: "decodeToken (js ''!'') = JNull"
    by (simp add: decodeToken_def atob_rejects_bang)
  have p: "\<exists>enc. handleAudioPlayerEvent demo_db (nearlyFinished (Some (demo_token ''t1''))) demo_urls
              = Inr (PlayResponse
                       (playOf demo_urls demo_t2 ENQUEUE enc (Some (demo_token ''t1''))) None)
          \<and> handleAlexaRoute demo_db (nearlyFinished (Some (demo_token ''t1''))) demo_urls
              = Some (PlayResponse
                        (playOf demo_urls demo_t2 ENQUEUE enc (Some (demo_token ''t1''))) None)
          \<and> decodeToken enc = token_json \<lparr>trackId = js ''t2'', context' = js ''all''\<rparr>"
    using n1 [THEN conjunct1, rule_format, of "demo_token ''t1''" demo_t2 "js ''all''"]
      demo_token_nonempty a1 c1 latin1_literals(1)
    by (simp add: demo_ids)
  have e3: "handleAudioPlayerEvent demo_db (nearlyFinished (Some (demo_token ''t3''))) demo_urls
       = Inr EmptyResponse"
    using n3 a3 by blast
  have eb: "handleAudioPlayerEvent demo_db (nearlyFinished (Some (js ''!''))) demo_urls
       = Inr EmptyResponse"
    using nb bang by blast
  have en: "handleAudioPlayerEvent demo_db (nearlyFinished None) demo_urls = Inr EmptyResponse"
    "handleAlexaRoute demo_db (nearlyFinished None) demo_urls = Some EmptyResponse"
    using nn by blast+
  have shapeless: "\<nexists>ctx. js_get (decodeToken (js ''e30='')) (js ''context'') = Some (JStr ctx)"
    by (simp add: decode_empty_object)
  have es: "handleAlexaRoute demo_db (nearlyFinished (Some (js ''e30=''))) demo_urls
       = Some EmptyResponse"
    using ne shapeless by blast
  show ?thesis
    by (intro conjI)
       (fact demo_valid demo_token_nonempty a1 c1 latin1_literals(1) p a3 e3 bang eb en
          decode_empty_object shapeless es)+
qed

text \<open>
  The token \<open>demo_forged\<close> decodes to an object with the track id \<open>t1\<close> and a context
  of one code unit above 255.  The context is none of the known ones, so
  \<^verbatim>\<open>findAdjacentTrack\<close> searches all tracks and finds the next track \<open>t2\<close>; then
  \<^verbatim>\<open>btoa\<close> raises in \<^verbatim>\<open>encodeToken\<close>, the handler raises, and the route sends the empty
  response, not a Play directive.
\<close>

theorem nearly_finished_enqueues_counterexample:
  "demo_forged \<noteq> []
   \<and> decodeToken demo_forged
       = JObj [(js ''trackId'', JStr (js ''t1'')), (js ''context'', JStr [12354])]
   \<and> findAdjacentTrack demo_db (decodeToken demo_forged) Next = Inr (Some demo_t2)
   \<and> handleAudioPlayerEvent demo_db (nearlyFinished (Some demo_forged)) demo_urls
       = Inl InvalidCharacterError
   \<and> handleAlexaRoute demo_db (nearlyFinished (Some demo_forged)) demo_urls
       = Some EmptyResponse"
proof -
  have truthy: "\<not> js_falsy (decodeToken demo_forged)" by (simp add: decode_forged)
  have h: "handleAudioPlayerEvent demo_db (nearlyFinished (Some demo_forged)) demo_urls
       = Inl InvalidCharacterError"
    using forged_nonempty truthy forged_adjacent forged_not_encodable
    by (simp add: nearly_handler buildPlayResponse_def)
  show ?thesis
    using forged_nonempty decode_forged forged_adjacent(1) h by (simp add: nearly_route)
qed

lemma demo_search_none:
  "searchTracksByTitle demo_db (js ''Zeta'') = []"
  "searchTracksByArtist demo_db (js ''Zeta'') = []"
  "searchPlaylistsByName demo_db (js ''Zeta'') = []"
  by (simp_all add: searchTracksByTitle_def searchTracksByArtist_def searchPlaylistsByName_def
      demo_db_def demo_t1_def demo_t2_def demo_t3_def demo_track_def js_def js_startsWith_def)

lemma demo_search_found:
  "searchTracksByTitle demo_db (js ''Beta'') = [demo_t2]"
  "searchTracksByArtist demo_db (js ''Ann'') = [demo_t1, demo_t3]"
  by (simp_all add: searchTracksByTitle_def searchTracksByArtist_def
      demo_db_def demo_t1_def demo_t2_def demo_t3_def demo_track_def js_def js_startsWith_def)

lemma demo_search_playlist:
  "\<exists>pl. searchPlaylistsByName demo_db (js ''Mix'') = [pl] \<and> p_id pl = js ''pl.1''
        \<and> p_name pl = js ''Mix'' \<and> trackIds pl \<noteq> []"
  by (simp add: searchPlaylistsByName_def rowToPlaylist_def group_concat_def demo_db_def
      js_split_def js_def js_startsWith_def)

lemma demo_play_all:
  "\<exists>enc. handlePlayAllIntent demo_db demo_urls
           = Inr (PlayResponse (playOf demo_urls demo_t1 REPLACE_ALL enc None)
                    (Some (t_title demo_t1 @ msg_play)))"
proof -
  have "latin1 (t_id demo_t1)" by (simp add: demo_ids latin1_def js_def)
  then show ?thesis
    using play_response [of "\<lparr>trackId = t_id demo_t1, context' = js ''all''\<rparr>"
        "t_title demo_t1 @ msg_play" demo_t1 demo_urls] latin1_literals(1) msgs_nonempty(1)
    by (auto simp: handlePlayAllIntent_def demo_getTracks)
qed

lemma demo_other_storages:
  "valid_storage (demo_db\<lparr>tracks_rows := []\<rparr>)"
  "getTracks (demo_db\<lparr>tracks_rows := []\<rparr>) = []"
  "valid_storage (demo_db\<lparr>playlists_rows := [demo_playlist ''pl.2'' ''Void'' []]\<rparr>)"
  "\<exists>pl. searchPlaylistsByName (demo_db\<lparr>playlists_rows := [demo_playlist ''pl.2'' ''Void'' []]\<rparr>)
           (js ''Void'') = [pl] \<and> trackIds pl = []"
  "valid_storage (demo_db\<lparr>playlists_rows := [demo_playlist ''pl.3'' ''Lost'' [js ''t9'']]\<rparr>)"
  "\<exists>pl. searchPlaylistsByName
           (demo_db\<lparr>playlists_rows := [demo_playlist ''pl.3'' ''Lost'' [js ''t9'']]\<rparr>)
           (js ''Lost'') = [pl] \<and> trackIds pl \<noteq> []
        \<and> getPlaylistTracks
             (demo_db\<lparr>playlists_rows := [demo_playlist ''pl.3'' ''Lost'' [js ''t9'']]\<rparr>)
             (p_id pl) = []"
proof -
  show "valid_storage (demo_db\<lparr>tracks_rows := []\<rparr>)"
    "valid_storage (demo_db\<lparr>playlists_rows := [demo_playlist ''pl.2'' ''Void'' []]\<rparr>)"
    "valid_storage (demo_db\<lparr>playlists_rows := [demo_playlist ''pl.3'' ''Lost'' [js ''t9'']]\<rparr>)"
    using demo_valid
    by (simp_all add: valid_storage_def valid_id_def latin1_def demo_playlist_def)
       (simp_all add: demo_db_def js_def)
  show "getTracks (demo_db\<lparr>tracks_rows := []\<rparr>) = []" by (simp add: getTracks_def)
  show "\<exists>pl. searchPlaylistsByName
               (demo_db\<lparr>playlists_rows := [demo_playlist ''pl.2'' ''Void'' []]\<rparr>)
               (js ''Void'') = [pl] \<and> trackIds pl = []"
    by (simp add: searchPlaylistsByName_def rowToPlaylist_def group_concat_def demo_db_def
        demo_playlist_def js_def js_startsWith_def)
  show "\<exists>pl. searchPlaylistsByName
           (demo_db\<lparr>playlists_rows := [demo_playlist ''pl.3'' ''Lost'' [js ''t9'']]\<rparr>)
           (js ''Lost'') = [pl] \<and> trackIds pl \<noteq> []
        \<and> getPlaylistTracks
             (demo_db\<lparr>playlists_rows := [demo_playlist ''pl.3'' ''Lost'' [js ''t9'']]\<rparr>)
             (p_id pl) = []"
    by (simp add: searchPlaylistsByName_def rowToPlaylist_def group_concat_def
        getPlaylistTracks_def demo_playlist_def js_split_def)
       (simp add: demo_db_def demo_t1_def demo_t2_def demo_t3_def demo_track_def js_def
        js_startsWith_def)
qed

text \<open>
  Claim C8.  As the code has it, over a well-formed storage.  With no slot value or an
  empty one, the title and the artist intent answer what the play-everything intent
  answers, and the playlist intent asks for a playlist name.  The play-everything
  intent plays the first of all tracks with the context \<^verbatim>\<open>all\<close>, and says that there
  is nothing to play when the library is empty.  With a slot value that matches
  nothing, each of the three intents answers with a spoken not-found message that names
  the slot value, keeps the session open and plays nothing.  With a match, the title
  and the artist intent answer with a Play directive with the behaviour REPLACE_ALL at
  offset 0 for the first match, an utterance that names the track's title or artist,
  and a token of the context \<^verbatim>\<open>single\<close> or of the artist.  The playlist intent takes
  the first matching playlist: without entries it answers the not-found message, with
  entries of which none is a stored track it says that the playlist holds no track,
  and else it answers with such a Play directive for the playlist's first track, an
  utterance that names the playlist, and a token of the playlist's context.
\<close>

theorem play_intents:
  assumes vs: "valid_storage db"
  shows "handlePlaySongIntent db None urls = handlePlayAllIntent db urls
       \<and> handlePlaySongIntent db (Some []) urls = handlePlayAllIntent db urls
       \<and> handlePlayArtistIntent db None urls = handlePlayAllIntent db urls
       \<and> handlePlayArtistIntent db (Some []) urls = handlePlayAllIntent db urls
       \<and> handlePlayPlaylistIntent db None urls = Inr (SpeechResponse msg_ask_playlist_name False)
       \<and> handlePlayPlaylistIntent db (Some []) urls
           = Inr (SpeechResponse msg_ask_playlist_name False)
       \<and> (\<forall>first others. getTracks db = first # others \<longrightarrow>
            (\<exists>enc. handlePlayAllIntent db urls
                     = Inr (PlayResponse (playOf urls first REPLACE_ALL enc None)
                              (Some (t_title first @ msg_play)))
                 \<and> decodeToken enc = token_json \<lparr>trackId = t_id first, context' = js ''all''\<rparr>))
       \<and> (getTracks db = [] \<longrightarrow>
            handlePlayAllIntent db urls = Inr (SpeechResponse msg_no_tracks False))
       \<and> (name \<noteq> [] \<and> searchTracksByTitle db name = [] \<longrightarrow>
            handlePlaySongIntent db (Some name) urls
              = Inr (SpeechResponse (name @ msg_not_found) False))
       \<and> (name \<noteq> [] \<and> searchTracksByArtist db name = [] \<longrightarrow>
            handlePlayArtistIntent db (Some name) urls
              = Inr (SpeechResponse (name @ msg_artist_not_found) False))
       \<and> (name \<noteq> [] \<and> searchPlaylistsByName db name = [] \<longrightarrow>
            handlePlayPlaylistIntent db (Some name) urls
              = Inr (SpeechResponse (msg_playlist_open @ name @ msg_playlist_not_found) False))
       \<and> (\<forall>first others. name \<noteq> [] \<and> searchTracksByTitle db name = first # others \<longrightarrow>
            (\<exists>enc. handlePlaySongIntent db (Some name) urls
                     = Inr (PlayResponse (playOf urls first REPLACE_ALL enc None)
                              (Some (t_title first @ msg_play)))
                 \<and> decodeToken enc
                     = token_json \<lparr>trackId = t_id first, context' = js ''single''\<rparr>))
       \<and> (\<forall>first others. name \<noteq> [] \<and> searchTracksByArtist db name = first # others \<longrightarrow>
            (\<exists>enc. handlePlayArtistIntent db (Some name) urls
                     = Inr (PlayResponse (playOf urls first REPLACE_ALL enc None)
                              (Some (t_artist first @ msg_artist_play)))
                 \<and> decodeToken enc
                     = token_json \<lparr>trackId = t_id first,
                                   context' = js ''artist::'' @ t_artistId first\<rparr>))
       \<and> (\<forall>pl others. name \<noteq> [] \<and> searchPlaylistsByName db name = pl # others
              \<and> trackIds pl = [] \<longrightarrow>
            handlePlayPlaylistIntent db (Some name) urls
              = Inr (SpeechResponse (msg_playlist_open @ name @ msg_playlist_not_found) False))
       \<and> (\<forall>pl others. name \<noteq> [] \<and> searchPlaylistsByName db name = pl # others
              \<and> trackIds pl \<noteq> [] \<and> getPlaylistTracks db (p_id pl) = [] \<longrightarrow>
            handlePlayPlaylistIntent db (Some name) urls
              = Inr (SpeechResponse msg_playlist_empty False))
       \<and> (\<forall>pl others first rest. name \<noteq> [] \<and> searchPlaylistsByName db name = pl # others
              \<and> trackIds pl \<noteq> [] \<and> getPlaylistTracks db (p_id pl) = first # rest \<longrightarrow>
            (\<exists>enc. handlePlayPlaylistIntent db (Some name) urls
                     = Inr (PlayResponse (playOf urls first REPLACE_ALL enc None)
                              (Some (msg_playlist @ p_name pl @ msg_play)))
                 \<and> decodeToken enc
                     = token_json \<lparr>trackId = t_id first,
                                   context' = js ''playlist::'' @ p_id pl\<rparr>))"
proof -
  have slots: "handlePlaySongIntent db None urls = handlePlayAllIntent db urls"
    "handlePlaySongIntent db (Some []) urls = handlePlayAllIntent db urls"
    "handlePlayArtistIntent db None urls = handlePlayAllIntent db urls"
    "handlePlayArtistIntent db (Some []) urls = handlePlayAllIntent db urls"
    "handlePlayPlaylistIntent db None urls = Inr (SpeechResponse msg_ask_playlist_name False)"
    "handlePlayPlaylistIntent db (Some []) urls = Inr (SpeechResponse msg_ask_playlist_name False)"
    by (simp_all add: handlePlaySongIntent_def handlePlayArtistIntent_def
        handlePlayPlaylistIntent_def)
  have everything: "\<forall>first others. getTracks db = first # others \<longrightarrow>
            (\<exists>enc. handlePlayAllIntent db urls
                     = Inr (PlayResponse (playOf urls first REPLACE_ALL enc None)
                              (Some (t_title first @ msg_play)))
                 \<and> decodeToken enc = token_json \<lparr>trackId = t_id first, context' = js ''all''\<rparr>)"
  proof (intro allI impI)
    fix first others
    assume that: "getTracks db = first # others"
    have "first \<in> set (tracks_rows db)" using that by (simp add: getTracks_def)
    then have "latin1 (t_id first)" using stored_track_valid [OF vs] by blast
    then show "\<exists>enc. handlePlayAllIntent db urls
                     = Inr (PlayResponse (playOf urls first REPLACE_ALL enc None)
                              (Some (t_title first @ msg_play)))
                 \<and> decodeToken enc = token_json \<lparr>trackId = t_id first, context' = js ''all''\<rparr>"
      using play_response [of "\<lparr>trackId = t_id first, context' = js ''all''\<rparr>"
          "t_title first @ msg_play" first urls] latin1_literals(1) msgs_nonempty(1) that
      by (simp add: handlePlayAllIntent_def)
  qed
  have empty_library: "getTracks db = [] \<longrightarrow>
            handlePlayAllIntent db urls = Inr (SpeechResponse msg_no_tracks False)"
    by (simp add: handlePlayAllIntent_def)
  have nomatch:
    "name \<noteq> [] \<and> searchTracksByTitle db name = [] \<longrightarrow>
       handlePlaySongIntent db (Some name) urls = Inr (SpeechResponse (name @ msg_not_found) False)"
    "name \<noteq> [] \<and> searchTracksByArtist db name = [] \<longrightarrow>
       handlePlayArtistIntent db (Some name) urls
         = Inr (SpeechResponse (name @ msg_artist_not_found) False)"
    "name \<noteq> [] \<and> searchPlaylistsByName db name = [] \<longrightarrow>
       handlePlayPlaylistIntent db (Some name) urls
         = Inr (SpeechResponse (msg_playlist_open @ name @ msg_playlist_not_found) False)"
    by (simp_all add: handlePlaySongIntent_def handlePlayArtistIntent_def
        handlePlayPlaylistIntent_def)
  have song: "\<forall>first others. name \<noteq> [] \<and> searchTracksByTitle db name = first # others \<longrightarrow>
            (\<exists>enc. handlePlaySongIntent db (Some name) urls
                     = Inr (PlayResponse (playOf urls first REPLACE_ALL enc None)
                              (Some (t_title first @ msg_play)))
                 \<and> decodeToken enc
                     = token_json \<lparr>trackId = t_id first, context' = js ''single''\<rparr>)"
  proof (intro allI impI, elim conjE)
    fix first others
    assume that: "name \<noteq> []" "searchTracksByTitle db name = first # others"
    have "first \<in> set (searchTracksByTitle db name)" using that by simp
    then have "first \<in> set (tracks_rows db)" by (simp add: searchTracksByTitle_def)
    then have "latin1 (t_id first)" using stored_track_valid [OF vs] by blast
    then show "\<exists>enc. handlePlaySongIntent db (Some name) urls
                     = Inr (PlayResponse (playOf urls first REPLACE_ALL enc None)
                              (Some (t_title first @ msg_play)))
                 \<and> decodeToken enc
                     = token_json \<lparr>trackId = t_id first, context' = js ''single''\<rparr>"
      using play_response [of "\<lparr>trackId = t_id first, context' = js ''single''\<rparr>"
          "t_title first @ msg_play" first urls] latin1_literals(2) msgs_nonempty(1) that
      by (simp add: handlePlaySongIntent_def)
  qed
  have artist: "\<forall>first others. name \<noteq> [] \<and> searchTracksByArtist db name = first # others \<longrightarrow>
            (\<exists>enc. handlePlayArtistIntent db (Some name) urls
                     = Inr (PlayResponse (playOf urls first REPLACE_ALL enc None)
                              (Some (t_artist first @ msg_artist_play)))
                 \<and> decodeToken enc
                     = token_json \<lparr>trackId = t_id first,
                                   context' = js ''artist::'' @ t_artistId first\<rparr>)"
  proof (intro allI impI, elim conjE)
    fix first others
    assume that: "name \<noteq> []" "searchTracksByArtist db name = first # others"
    have "first \<in> set (searchTracksByArtist db name)" using that by simp
    then have "first \<in> set (tracks_rows db)" by (simp add: searchTracksByArtist_def)
    then have "latin1 (t_id first)" "latin1 (t_artistId first)"
      using stored_track_valid [OF vs] by blast+
    then show "\<exists>enc. handlePlayArtistIntent db (Some name) urls
                     = Inr (PlayResponse (playOf urls first REPLACE_ALL enc None)
                              (Some (t_artist first @ msg_artist_play)))
                 \<and> decodeToken enc
                     = token_json \<lparr>trackId = t_id first,
                                   context' = js ''artist::'' @ t_artistId first\<rparr>"
      using play_response [of "\<lparr>trackId = t_id first,
            context' = js ''artist::'' @ t_artistId first\<rparr>"
          "t_artist first @ msg_artist_play" first urls] latin1_literals(3) msgs_nonempty(2) that
      by (simp add: handlePlayArtistIntent_def)
  qed
  have hollow:
    "\<forall>pl others. name \<noteq> [] \<and> searchPlaylistsByName db name = pl # others
        \<and> trackIds pl = [] \<longrightarrow>
      handlePlayPlaylistIntent db (Some name) urls
        = Inr (SpeechResponse (msg_playlist_open @ name @ msg_playlist_not_found) False)"
    "\<forall>pl others. name \<noteq> [] \<and> searchPlaylistsByName db name = pl # others
        \<and> trackIds pl \<noteq> [] \<and> getPlaylistTracks db (p_id pl) = [] \<longrightarrow>
      handlePlayPlaylistIntent db (Some name) urls = Inr (SpeechResponse msg_playlist_empty False)"
    by (simp_all add: handlePlayPlaylistIntent_def)
  have playlist: "\<forall>pl others first rest. name \<noteq> [] \<and> searchPlaylistsByName db name = pl # others
              \<and> trackIds pl \<noteq> [] \<and> getPlaylistTracks db (p_id pl) = first # rest \<longrightarrow>
            (\<exists>enc. handlePlayPlaylistIntent db (Some name) urls
                     = Inr (PlayResponse (playOf urls first REPLACE_ALL enc None)
                              (Some (msg_playlist @ p_name pl @ msg_play)))
                 \<and> decodeToken enc
                     = token_json \<lparr>trackId = t_id first,
                                   context' = js ''playlist::'' @ p_id pl\<rparr>)"
  proof (intro allI impI, elim conjE)
    fix pl others first rest
    assume that: "name \<noteq> []" "searchPlaylistsByName db name = pl # others" "trackIds pl \<noteq> []"
      "getPlaylistTracks db (p_id pl) = first # rest"
    have "pl \<in> set (searchPlaylistsByName db name)" using that by simp
    then have p: "latin1 (p_id pl)" using found_playlist_valid [OF vs] by blast
    have "first \<in> set (getPlaylistTracks db (p_id pl))" using that by simp
    then have "first \<in> set (tracks_rows db)" by (rule playlist_tracks_stored)
    then have "latin1 (t_id first)" using stored_track_valid [OF vs] by blast
    then show "\<exists>enc. handlePlayPlaylistIntent db (Some name) urls
                     = Inr (PlayResponse (playOf urls first REPLACE_ALL enc None)
                              (Some (msg_playlist @ p_name pl @ msg_play)))
                 \<and> decodeToken enc
                     = token_json \<lparr>trackId = t_id first,
                                   context' = js ''playlist::'' @ p_id pl\<rparr>"
      using play_response [of "\<lparr>trackId = t_id first,
            context' = js ''playlist::'' @ p_id pl\<rparr>"
          "msg_playlist @ p_name pl @ msg_play" first urls]
        latin1_literals(4) [OF p] msgs_nonempty(3) that
      by (simp add: handlePlayPlaylistIntent_def)
  qed
  show ?thesis
    by (intro conjI) (fact slots everything empty_library nomatch song artist hollow playlist)+
qed

theorem play_intents_witness:
  "valid_storage demo_db
   \<and> handlePlaySongIntent demo_db None demo_urls = handlePlayAllIntent demo_db demo_urls
   \<and> getTracks demo_db = [demo_t1, demo_t2, demo_t3]
   \<and> (\<exists>enc. handlePlayAllIntent demo_db demo_urls
              = Inr (PlayResponse (playOf demo_urls demo_t1 REPLACE_ALL enc None)
                       (Some (t_title demo_t1 @ msg_play)))
          \<and> decodeToken enc = token_json \<lparr>trackId = js ''t1'', context' = js ''all''\<rparr>)
   \<and> valid_storage (demo_db\<lparr>tracks_rows := []\<rparr>) \<and> getTracks (demo_db\<lparr>tracks_rows := []\<rparr>) = []
   \<and> handlePlayAllIntent (demo_db\<lparr>tracks_rows := []\<rparr>) demo_urls = Inr (SpeechResponse msg_no_tracks False)
   \<and> js ''Zeta'' \<noteq> []
   \<and> searchTracksByTitle demo_db (js ''Zeta'') = []
   \<and> handlePlaySongIntent demo_db (Some (js ''Zeta'')) demo_urls
       = Inr (SpeechResponse (js ''Zeta'' @ msg_not_found) False)
   \<and> searchTracksByArtist demo_db (js ''Zeta'') = []
   \<and> handlePlayArtistIntent demo_db (Some (js ''Zeta'')) demo_urls
       = Inr (SpeechResponse (js ''Zeta'' @ msg_artist_not_found) False)
   \<and> searchPlaylistsByName demo_db (js ''Zeta'') = []
   \<and> handlePlayPlaylistIntent demo_db (Some (js ''Zeta'')) demo_urls
       = Inr (SpeechResponse (msg_playlist_open @ js ''Zeta'' @ msg_playlist_not_found) False)
   \<and> searchTracksByTitle demo_db (js ''Beta'') = [demo_t2]
   \<and> (\<exists>enc. handlePlaySongIntent demo_db (Some (js ''Beta'')) demo_urls
              = Inr (PlayResponse (playOf demo_urls demo_t2 REPLACE_ALL enc None)
                       (Some (t_title demo_t2 @ msg_play)))
          \<and> decodeToken enc = token_json \<lparr>trackId = js ''t2'', context' = js ''single''\<rparr>)
   \<and> searchTracksByArtist demo_db (js ''Ann'') = [demo_t1, demo_t3]
   \<and> (\<exists>enc. handlePlayArtistIntent demo_db (Some (js ''Ann'')) demo_urls
              = Inr (PlayResponse (playOf demo_urls demo_t1 REPLACE_ALL enc None)
                       (Some (t_artist demo_t1 @ msg_artist_play)))
          \<and> decodeToken enc
              = token_json \<lparr>trackId = js ''t1'',
                            context' = js ''artist::'' @ t_artistId demo_t1\<rparr>)
   \<and> valid_storage (demo_db\<lparr>playlists_rows := [demo_playlist ''pl.2'' ''Void'' []]\<rparr>)
   \<and> (\<exists>pl. searchPlaylistsByName (demo_db\<lparr>playlists_rows := [demo_playlist ''pl.2'' ''Void'' []]\<rparr>) (js ''Void'') = [pl] \<and> trackIds pl = [])
   \<and> handlePlayPlaylistIntent (demo_db\<lparr>playlists_rows := [demo_playlist ''pl.2'' ''Void'' []]\<rparr>) (Some (js ''Void'')) demo_urls
       = Inr (SpeechResponse (msg_playlist_open @ js ''Void'' @ msg_playlist_not_found) False)
   \<and> valid_storage (demo_db\<lparr>playlists_rows := [demo_playlist ''pl.3'' ''Lost'' [js ''t9'']]\<rparr>)
   \<and> (\<exists>pl. searchPlaylistsByName (demo_db\<lparr>playlists_rows := [demo_playlist ''pl.3'' ''Lost'' [js ''t9'']]\<rparr>) (js ''Lost'') = [pl] \<and> trackIds pl \<noteq> []
          \<and> getPlaylistTracks (demo_db\<lparr>playlists_rows := [demo_playlist ''pl.3'' ''Lost'' [js ''t9'']]\<rparr>) (p_id pl) = [])
   \<and> handlePlayPlaylistIntent (demo_db\<lparr>playlists_rows := [demo_playlist ''pl.3'' ''Lost'' [js ''t9'']]\<rparr>) (Some (js ''Lost'')) demo_urls
       = Inr (SpeechResponse msg_playlist_empty False)
   \<and> (\<exists>pl. searchPlaylistsByName demo_db (js ''Mix'') = [pl] \<and> trackIds pl \<noteq> []
          \<and> getPlaylistTracks demo_db (p_id pl) = [demo_t3, demo_t1]
          \<and> (\<exists>enc. handlePlayPlaylistIntent demo_db (Some (js ''Mix'')) demo_urls
                     = Inr (PlayResponse (playOf demo_urls demo_t3 REPLACE_ALL enc None)
                              (Some (msg_playlist @ js ''Mix'' @ msg_play)))
                 \<and> decodeToken enc
                     = token_json \<lparr>trackId = js ''t3'',
                                   context' = js ''playlist::'' @ js ''pl.1''\<rparr>))"
proof -
  have ne: "js ''Zeta'' \<noteq> []" "js ''Beta'' \<noteq> []" "js ''Ann'' \<noteq> []" "js ''Mix'' \<noteq> []"
    "js ''Void'' \<noteq> []" "js ''Lost'' \<noteq> []"
    by (simp_all add: js_def)
  note z = play_intents [OF demo_valid, of demo_urls "js ''Zeta''"]
  note b = play_intents [OF demo_valid, of demo_urls "js ''Beta''"]
  note a = play_intents [OF demo_valid, of demo_urls "js ''Ann''"]
  note m = play_intents [OF demo_valid, of demo_urls "js ''Mix''"]
  note e = play_intents [OF demo_other_storages(1), of demo_urls "js ''Zeta''"]
  note v = play_intents [OF demo_other_storages(3), of demo_urls "js ''Void''"]
  note l = play_intents [OF demo_other_storages(5), of demo_urls "js ''Lost''"]
  have slot: "handlePlaySongIntent demo_db None demo_urls = handlePlayAllIntent demo_db demo_urls"
    using z by simp
  have everything: "\<exists>enc. handlePlayAllIntent demo_db demo_urls
              = Inr (PlayResponse (playOf demo_urls demo_t1 REPLACE_ALL enc None)
                       (Some (t_title demo_t1 @ msg_play)))
          \<and> decodeToken enc = token_json \<lparr>trackId = js ''t1'', context' = js ''all''\<rparr>"
    using z [THEN conjunct2, THEN conjunct2, THEN conjunct2, THEN conjunct2,
             THEN conjunct2, THEN conjunct2, THEN conjunct1, rule_format, of demo_t1 "[demo_t2, demo_t3]"]
    by (simp add: demo_getTracks demo_ids)
  have empty_library:
    "handlePlayAllIntent (demo_db\<lparr>tracks_rows := []\<rparr>) demo_urls = Inr (SpeechResponse msg_no_tracks False)"
    using e [THEN conjunct2, THEN conjunct2, THEN conjunct2, THEN conjunct2,
             THEN conjunct2, THEN conjunct2, THEN conjunct2, THEN conjunct1, rule_format] demo_other_storages(2) by simp
  have nomatch:
    "handlePlaySongIntent demo_db (Some (js ''Zeta'')) demo_urls
       = Inr (SpeechResponse (js ''Zeta'' @ msg_not_found) False)"
    "handlePlayArtistIntent demo_db (Some (js ''Zeta'')) demo_urls
       = Inr (SpeechResponse (js ''Zeta'' @ msg_artist_not_found) False)"
    "handlePlayPlaylistIntent demo_db (Some (js ''Zeta'')) demo_urls
       = Inr (SpeechResponse (msg_playlist_open @ js ''Zeta'' @ msg_playlist_not_found) False)"
    using z [THEN conjunct2, THEN conjunct2, THEN conjunct2, THEN conjunct2,
             THEN conjunct2, THEN conjunct2, THEN conjunct2, THEN conjunct2,
             THEN conjunct1, rule_format] z [THEN conjunct2, THEN conjunct2, THEN conjunct2, THEN conjunct2,
             THEN conjunct2, THEN conjunct2, THEN conjunct2, THEN conjunct2,
             THEN conjunct2, THEN conjunct1, rule_format] z [THEN conjunct2, THEN conjunct2, THEN conjunct2, THEN conjunct2,
             THEN conjunct2, THEN conjunct2, THEN conjunct2, THEN conjunct2,
             THEN conjunct2, THEN conjunct2, THEN conjunct1, rule_format] ne(1) demo_search_none
    by simp_all
  have song: "\<exists>enc. handlePlaySongIntent demo_db (Some (js ''Beta'')) demo_urls
              = Inr (PlayResponse (playOf demo_urls demo_t2 REPLACE_ALL enc None)
                       (Some (t_title demo_t2 @ msg_play)))
          \<and> decodeToken enc = token_json \<lparr>trackId = js ''t2'', context' = js ''single''\<rparr>"
    using b [THEN conjunct2, THEN conjunct2, THEN conjunct2, THEN conjunct2,
             THEN conjunct2, THEN conjunct2, THEN conjunct2, THEN conjunct2,
             THEN conjunct2, THEN conjunct2, THEN conjunct2, THEN conjunct1, rule_format, of demo_t2 "[]"]
    by (simp add: ne demo_search_found demo_ids)
  have artist: "\<exists>enc. handlePlayArtistIntent demo_db (Some (js ''Ann'')) demo_urls
              = Inr (PlayResponse (playOf demo_urls demo_t1 REPLACE_ALL enc None)
                       (Some (t_artist demo_t1 @ msg_artist_play)))
          \<and> decodeToken enc
              = token_json \<lparr>trackId = js ''t1'',
                            context' = js ''artist::'' @ t_artistId demo_t1\<rparr>"
    using a [THEN conjunct2, THEN conjunct2, THEN conjunct2, THEN conjunct2,
             THEN conjunct2, THEN conjunct2, THEN conjunct2, THEN conjunct2,
             THEN conjunct2, THEN conjunct2, THEN conjunct2, THEN conjunct2,
             THEN conjunct1, rule_format, of demo_t1 "[demo_t3]"]
    by (simp add: ne demo_search_found demo_ids)
  obtain pv where pv: "searchPlaylistsByName (demo_db\<lparr>playlists_rows := [demo_playlist ''pl.2'' ''Void'' []]\<rparr>) (js ''Void'') = [pv]" "trackIds pv = []"
    using demo_other_storages(4) by blast
  have hollow: "handlePlayPlaylistIntent (demo_db\<lparr>playlists_rows := [demo_playlist ''pl.2'' ''Void'' []]\<rparr>) (Some (js ''Void'')) demo_urls
       = Inr (SpeechResponse (msg_playlist_open @ js ''Void'' @ msg_playlist_not_found) False)"
    using v [THEN conjunct2, THEN conjunct2, THEN conjunct2, THEN conjunct2,
             THEN conjunct2, THEN conjunct2, THEN conjunct2, THEN conjunct2,
             THEN conjunct2, THEN conjunct2, THEN conjunct2, THEN conjunct2,
             THEN conjunct2, THEN conjunct1, rule_format, of pv "[]"] pv ne
    by simp
  obtain pg where pg: "searchPlaylistsByName (demo_db\<lparr>playlists_rows := [demo_playlist ''pl.3'' ''Lost'' [js ''t9'']]\<rparr>) (js ''Lost'') = [pg]" "trackIds pg \<noteq> []"
    "getPlaylistTracks (demo_db\<lparr>playlists_rows := [demo_playlist ''pl.3'' ''Lost'' [js ''t9'']]\<rparr>) (p_id pg) = []"
    using demo_other_storages(6) by blast
  have gone: "handlePlayPlaylistIntent (demo_db\<lparr>playlists_rows := [demo_playlist ''pl.3'' ''Lost'' [js ''t9'']]\<rparr>) (Some (js ''Lost'')) demo_urls
       = Inr (SpeechResponse msg_playlist_empty False)"
    using l [THEN conjunct2, THEN conjunct2, THEN conjunct2, THEN conjunct2,
             THEN conjunct2, THEN conjunct2, THEN conjunct2, THEN conjunct2,
             THEN conjunct2, THEN conjunct2, THEN conjunct2, THEN conjunct2,
             THEN conjunct2, THEN conjunct2, THEN conjunct1, rule_format, of pg "[]"] pg ne
    by simp
  obtain pl where pl: "searchPlaylistsByName demo_db (js ''Mix'') = [pl]" "p_id pl = js ''pl.1''"
    "p_name pl = js ''Mix''" "trackIds pl \<noteq> []"
    using demo_search_playlist by blast
  have tracks: "getPlaylistTracks demo_db (p_id pl) = [demo_t3, demo_t1]"
    by (simp add: pl demo_playlist_tracks)
  have playlist: "\<exists>enc. handlePlayPlaylistIntent demo_db (Some (js ''Mix'')) demo_urls
                     = Inr (PlayResponse (playOf demo_urls demo_t3 REPLACE_ALL enc None)
                              (Some (msg_playlist @ js ''Mix'' @ msg_play)))
                 \<and> decodeToken enc
                     = token_json \<lparr>trackId = js ''t3'',
                                   context' = js ''playlist::'' @ js ''pl.1''\<rparr>"
    using m [THEN conjunct2, THEN conjunct2, THEN conjunct2, THEN conjunct2,
             THEN conjunct2, THEN conjunct2, THEN conjunct2, THEN conjunct2,
             THEN conjunct2, THEN conjunct2, THEN conjunct2, THEN conjunct2,
             THEN conjunct2, THEN conjunct2, THEN conjunct2, rule_format, of pl "[]" demo_t3 "[demo_t1]"]
      pl tracks
    by (simp add: ne demo_ids)
  have mix: "\<exists>pl. searchPlaylistsByName demo_db (js ''Mix'') = [pl] \<and> trackIds pl \<noteq> []
          \<and> getPlaylistTracks demo_db (p_id pl) = [demo_t3, demo_t1]
          \<and> (\<exists>enc. handlePlayPlaylistIntent demo_db (Some (js ''Mix'')) demo_urls
                     = Inr (PlayResponse (playOf demo_urls demo_t3 REPLACE_ALL enc None)
                              (Some (msg_playlist @ js ''Mix'' @ msg_play)))
                 \<and> decodeToken enc
                     = token_json \<lparr>trackId = js ''t3'',
                                   context' = js ''playlist::'' @ js ''pl.1''\<rparr>)"
    using pl(1) pl(4) tracks playlist by blast
  show ?thesis
    by (intro conjI)
       (fact demo_valid slot demo_getTracks everything demo_other_storages empty_library ne
          demo_search_none nomatch demo_search_found song artist hollow gone mix)+
qed

text \<open>
  The title intent with a slot value that matches no title: the answer is the spoken
  not-found message, and it is not the answer of the play-everything intent.
\<close>

theorem play_intents_counterexample:
  "searchTracksByTitle demo_db (js ''Zeta'') = []
   \<and> handlePlaySongIntent demo_db (Some (js ''Zeta'')) demo_urls
       = Inr (SpeechResponse (js ''Zeta'' @ msg_not_found) False)
   \<and> handlePlaySongIntent demo_db (Some (js ''Zeta'')) demo_urls
       \<noteq> handlePlayAllIntent demo_db demo_urls"
proof -
  have ne: "js ''Zeta'' \<noteq> []" by (simp add: js_def)
  have s: "handlePlaySongIntent demo_db (Some (js ''Zeta'')) demo_urls
       = Inr (SpeechResponse (js ''Zeta'' @ msg_not_found) False)"
    using ne by (simp add: handlePlaySongIntent_def demo_search_none)
  obtain enc where "handlePlayAllIntent demo_db demo_urls
           = Inr (PlayResponse (playOf demo_urls demo_t1 REPLACE_ALL enc None)
                    (Some (t_title demo_t1 @ msg_play)))"
    using demo_play_all by blast
  then show ?thesis using s demo_search_none(1) by simp
qed

end
